theory Spec2Isabelle
  imports Complex_Main "HOL-Library.Signed_Division"
begin

section \<open>Tokens and the abstract syntax tree\<close>

text \<open>
  The token kinds of the lexer (\<^verbatim>\<open>enum class TokenType\<close>).  The header that declares the
  enumeration is not part of the sources at hand; the constructors are the kinds that the
  lexer, the parser and the IR generator name.  Nothing below depends on their order.
\<close>

datatype TokenType =
    INTEGER | FLOAT | STRING | IDENTIFIER | TRUE_LIT | FALSE_LIT
  | IF | ELIF | ELSE | WHILE | FOR | RETURN | PRINT
  | INT | FLOAT_KW | BOOL | VOID | LET
  | INPUT | KEY_PRESSED | SCREEN | DRAW_PIXEL | DRAW_RECT | DRAW_LINE | DRAW_CIRCLE
  | CLEAR_SCREEN | DISPLAY | QUIT | IS_KEY_DOWN | UPDATE_INPUT
  | PLUS | MINUS | STAR | SLASH | PERCENT | ASSIGN
  | EQUAL | NOT_EQUAL | LESS | GREATER | LESS_EQUAL | GREATER_EQUAL
  | AND | OR | NOT
  | LPAREN | RPAREN | LBRACE | RBRACE | LBRACKET | RBRACKET
  | SEMICOLON | COMMA | DOT | COLON
  | NEWLINE | END_OF_FILE | UNKNOWN

text \<open>
  The AST of \<^verbatim>\<open>parser.h\<close>.  The class hierarchy with downcasts becomes two datatypes;
  a pointer that may be null (\<^verbatim>\<open>ReturnStatement::expression\<close>, \<^verbatim>\<open>IfStatement::elseBranch\<close>,
  the three parts of a for header, an initializer, a prompt) becomes an \<open>option\<close>.
\<close>

datatype expr =
    Literal TokenType string
  | Identifier string
  | BinaryOp expr TokenType expr
  | UnaryOp TokenType expr
  | FunctionCall string "expr list"
  | InputCall "expr option"
  | KeyPressedCall "expr option"
  | ArrayAccess expr expr
  | Assignment string expr

datatype stmt =
    ExpressionStatement expr
  | PrintStatement expr
  | BlockStatement "stmt list"
  | ReturnStatement "expr option"
  | IfStatement expr stmt "stmt option"
  | WhileStatement expr stmt
  | ForStatement "stmt option" "expr option" "expr option" stmt
  | VariableDecl string string "expr option"

record FunctionDecl =
  fd_returnType :: string
  fd_name :: string
  fd_parameters :: "(string \<times> string) list"
  fd_body :: stmt

type_synonym Program = "FunctionDecl list"

section \<open>Semantic analyzer (scematic.cpp)\<close>

record Symbol =
  sym_name :: string
  sym_type :: string
  sym_isFunction :: bool
  sym_isDeclared :: bool

type_synonym Scope = "string \<rightharpoonup> Symbol"

text \<open>
  The analyzer: the chain of scopes from \<^verbatim>\<open>currentScope\<close> up through the parent links
  (the last element is \<^verbatim>\<open>globalScope\<close>), the return type of the function being analysed,
  the static flag \<^verbatim>\<open>SemanticAnalyzer::errors\<close> and what was written to \<^verbatim>\<open>std::cerr\<close>.
\<close>

record Analyzer =
  scopes :: "Scope list"
  currentFunctionReturnType :: string
  errors :: bool
  cerr :: "string list"

definition apostrophe :: string where
  "apostrophe = [CHR 0x27]"

definition Scope_declare :: "string \<Rightarrow> Symbol \<Rightarrow> Scope \<Rightarrow> string + Scope" where
  "Scope_declare n symbol sc =
     (if sc n \<noteq> None
      then Inl (''Symbol '' @ apostrophe @ n @ apostrophe @ '' already declared in current scope'')
      else Inr (sc(n \<mapsto> symbol)))"

fun lookup :: "Scope list \<Rightarrow> string \<Rightarrow> Symbol option" where
  "lookup [] n = None"
| "lookup (sc # parents) n =
     (case sc n of Some symbol \<Rightarrow> Some symbol | None \<Rightarrow> lookup parents n)"

definition reportError :: "string \<Rightarrow> Analyzer \<Rightarrow> Analyzer" where
  "reportError message st =
     st\<lparr>cerr := cerr st @ [''Semantic Error: '' @ message], errors := True\<rparr>"

definition hasErrors :: "Analyzer \<Rightarrow> bool" where
  "hasErrors st = errors st"

text \<open>\<^verbatim>\<open>try { currentScope->declare(name, symbol); } catch (...) { reportError(e.what()); }\<close>\<close>

definition declareCurrent :: "string \<Rightarrow> Symbol \<Rightarrow> Analyzer \<Rightarrow> Analyzer" where
  "declareCurrent n symbol st =
     (case scopes st of
        [] \<Rightarrow> st
      | sc # parents \<Rightarrow>
          (case Scope_declare n symbol sc of
             Inl message \<Rightarrow> reportError message st
           | Inr sc' \<Rightarrow> st\<lparr>scopes := sc' # parents\<rparr>))"

definition enterScope :: "Analyzer \<Rightarrow> Analyzer" where
  "enterScope st = st\<lparr>scopes := Map.empty # scopes st\<rparr>"

text \<open>\<^verbatim>\<open>exitScope\<close> leaves the global scope in place.\<close>

definition exitScope :: "Analyzer \<Rightarrow> Analyzer" where
  "exitScope st =
     (case scopes st of
        sc # parent # rest \<Rightarrow> st\<lparr>scopes := parent # rest\<rparr>
      | _ \<Rightarrow> st)"

definition isCompatibleType :: "string \<Rightarrow> string \<Rightarrow> bool" where
  "isCompatibleType from to =
     (if from = to then True
      else if (from = ''int'' \<or> from = ''float'') \<and> (to = ''int'' \<or> to = ''float'') then True
      else if (from = ''int'' \<or> from = ''string'') \<and> (to = ''int'' \<or> to = ''string'') then True
      else if (from = ''bool'' \<or> from = ''int'') \<and> (to = ''bool'' \<or> to = ''int'') then True
      else False)"

definition getCommonType :: "string \<Rightarrow> string \<Rightarrow> string" where
  "getCommonType type1 type2 =
     (if type1 = type2 then type1
      else if type1 = ''float'' \<or> type2 = ''float'' then ''float''
      else type1)"

fun analyzeLiteral :: "TokenType \<Rightarrow> string" where
  "analyzeLiteral INTEGER = ''int''"
| "analyzeLiteral FLOAT = ''float''"
| "analyzeLiteral STRING = ''string''"
| "analyzeLiteral _ = ''void''"

text \<open>The \<^verbatim>\<open>switch\<close> of \<^verbatim>\<open>analyzeBinaryOp\<close> on the operator.\<close>

definition binaryOpType :: "TokenType \<Rightarrow> string \<Rightarrow> string \<Rightarrow> string" where
  "binaryOpType op leftType rightType =
     (if op \<in> {PLUS, MINUS, STAR, SLASH, PERCENT} then getCommonType leftType rightType
      else if op \<in> {EQUAL, NOT_EQUAL, LESS, GREATER, LESS_EQUAL, GREATER_EQUAL} then ''int''
      else if op \<in> {TokenType.AND, TokenType.OR} then ''int''
      else if op = COMMA then rightType
      else ''void'')"

definition unaryOpType :: "TokenType \<Rightarrow> string \<Rightarrow> string" where
  "unaryOpType op operandType = (if op \<in> {MINUS, TokenType.NOT} then operandType else ''void'')"

fun analyzeExpression :: "expr \<Rightarrow> Analyzer \<Rightarrow> string \<times> Analyzer"
  and analyzeArguments :: "expr list \<Rightarrow> Analyzer \<Rightarrow> Analyzer" where
  "analyzeExpression (BinaryOp left op right) st =
     (case analyzeExpression left st of (leftType, st1) \<Rightarrow>
      case analyzeExpression right st1 of (rightType, st2) \<Rightarrow>
        (binaryOpType op leftType rightType, st2))"
| "analyzeExpression (UnaryOp op operand) st =
     (case analyzeExpression operand st of (operandType, st1) \<Rightarrow>
        (unaryOpType op operandType, st1))"
| "analyzeExpression (Literal ty v) st = (analyzeLiteral ty, st)"
| "analyzeExpression (Identifier n) st =
     (case lookup (scopes st) n of
        None \<Rightarrow> (''void'', reportError (''Undefined identifier: '' @ n) st)
      | Some symbol \<Rightarrow> (sym_type symbol, st))"
| "analyzeExpression (FunctionCall n arguments) st =
     (case lookup (scopes st) n of
        None \<Rightarrow> (''void'', reportError (''Undefined function: '' @ n) st)
      | Some symbol \<Rightarrow>
          if \<not> sym_isFunction symbol
          then (''void'', reportError (apostrophe @ n @ apostrophe @ '' is not a function'') st)
          else (sym_type symbol, analyzeArguments arguments st))"
| "analyzeExpression (Assignment n v) st =
     (case lookup (scopes st) n of
        None \<Rightarrow> (''void'', reportError (''Undefined variable: '' @ n) st)
      | Some symbol \<Rightarrow>
          (case analyzeExpression v st of (exprType, st1) \<Rightarrow>
             (sym_type symbol,
              if \<not> isCompatibleType exprType (sym_type symbol)
              then reportError (''Assignment type mismatch: '' @ apostrophe @ n @ apostrophe @ '' expects ''
                                @ sym_type symbol @ '', got '' @ exprType) st1
              else st1)))"
| "analyzeExpression (ArrayAccess array index) st =
     (case analyzeExpression array st of (arrayType, st1) \<Rightarrow>
      case analyzeExpression index st1 of (indexType, st2) \<Rightarrow> (arrayType, st2))"
| "analyzeExpression (InputCall prompt) st = (''void'', st)"
| "analyzeExpression (KeyPressedCall prompt) st = (''void'', st)"
| "analyzeArguments [] st = st"
| "analyzeArguments (arg # args) st = analyzeArguments args (snd (analyzeExpression arg st))"

text \<open>A null expression pointer has type \<^verbatim>\<open>"void"\<close>.\<close>

fun analyzeExpressionOpt :: "expr option \<Rightarrow> Analyzer \<Rightarrow> string \<times> Analyzer" where
  "analyzeExpressionOpt None st = (''void'', st)"
| "analyzeExpressionOpt (Some e) st = analyzeExpression e st"

definition analyzeVariableDecl :: "string \<Rightarrow> string \<Rightarrow> expr option \<Rightarrow> Analyzer \<Rightarrow> Analyzer" where
  "analyzeVariableDecl n ty initializer st =
     (let st1 =
        (case initializer of
           None \<Rightarrow> st
         | Some e \<Rightarrow>
             (case analyzeExpression e st of (exprType, st') \<Rightarrow>
                if \<not> isCompatibleType exprType ty
                then reportError (''Variable initialization type mismatch: expected '' @ ty
                                  @ '', got '' @ exprType) st'
                else st'))
      in declareCurrent n
           \<lparr>sym_name = n, sym_type = ty, sym_isFunction = False, sym_isDeclared = True\<rparr> st1)"

definition analyzeReturnStatement :: "expr option \<Rightarrow> Analyzer \<Rightarrow> Analyzer" where
  "analyzeReturnStatement expression st =
     (case expression of
        None \<Rightarrow> st
      | Some e \<Rightarrow>
          (case analyzeExpression e st of (exprType, st1) \<Rightarrow>
             if \<not> isCompatibleType exprType (currentFunctionReturnType st1)
             then reportError (''Return type mismatch: expected '' @ currentFunctionReturnType st1
                               @ '', got '' @ exprType) st1
             else st1))"

text \<open>
  \<^verbatim>\<open>analyzeStatement\<close> has no branch for a print statement, and
  \<^verbatim>\<open>analyzeBlockStatement\<close> enters no scope.
\<close>

fun analyzeStatement :: "stmt \<Rightarrow> Analyzer \<Rightarrow> Analyzer"
  and analyzeBlockStatement :: "stmt list \<Rightarrow> Analyzer \<Rightarrow> Analyzer" where
  "analyzeStatement (BlockStatement statements) st = analyzeBlockStatement statements st"
| "analyzeStatement (ReturnStatement expression) st = analyzeReturnStatement expression st"
| "analyzeStatement (IfStatement condition thenBranch elseBranch) st =
     (let st1 = snd (analyzeExpression condition st);
          st2 = analyzeStatement thenBranch st1
      in case elseBranch of None \<Rightarrow> st2 | Some s \<Rightarrow> analyzeStatement s st2)"
| "analyzeStatement (WhileStatement condition body) st =
     analyzeStatement body (snd (analyzeExpression condition st))"
| "analyzeStatement (ForStatement init condition increment body) st =
     (let st1 = enterScope st;
          st2 = (case init of None \<Rightarrow> st1 | Some s \<Rightarrow> analyzeStatement s st1);
          st3 = (case condition of None \<Rightarrow> st2 | Some e \<Rightarrow> snd (analyzeExpression e st2));
          st4 = (case increment of None \<Rightarrow> st3 | Some e \<Rightarrow> snd (analyzeExpression e st3));
          st5 = analyzeStatement body st4
      in exitScope st5)"
| "analyzeStatement (VariableDecl n ty initializer) st = analyzeVariableDecl n ty initializer st"
| "analyzeStatement (ExpressionStatement expression) st = snd (analyzeExpression expression st)"
| "analyzeStatement (PrintStatement expression) st = st"
| "analyzeBlockStatement [] st = st"
| "analyzeBlockStatement (s # ss) st = analyzeBlockStatement ss (analyzeStatement s st)"

fun declareParameters :: "(string \<times> string) list \<Rightarrow> Analyzer \<Rightarrow> Analyzer" where
  "declareParameters [] st = st"
| "declareParameters (param # params) st =
     declareParameters params
       (declareCurrent (snd param)
          \<lparr>sym_name = snd param, sym_type = fst param, sym_isFunction = False,
           sym_isDeclared = True\<rparr> st)"

definition analyzeFunction :: "FunctionDecl \<Rightarrow> Analyzer \<Rightarrow> Analyzer" where
  "analyzeFunction func st =
     exitScope
       (analyzeStatement (fd_body func)
          (declareParameters (fd_parameters func)
             (enterScope (st\<lparr>currentFunctionReturnType := fd_returnType func\<rparr>))))"

fun declareFunctions :: "Program \<Rightarrow> Analyzer \<Rightarrow> Analyzer" where
  "declareFunctions [] st = st"
| "declareFunctions (func # funcs) st =
     declareFunctions funcs
       (declareCurrent (fd_name func)
          \<lparr>sym_name = fd_name func, sym_type = fd_returnType func, sym_isFunction = True,
           sym_isDeclared = True\<rparr> st)"

fun analyzeFunctions :: "Program \<Rightarrow> Analyzer \<Rightarrow> Analyzer" where
  "analyzeFunctions [] st = st"
| "analyzeFunctions (func # funcs) st = analyzeFunctions funcs (analyzeFunction func st)"

definition analyzeProgram :: "Program \<Rightarrow> Analyzer \<Rightarrow> Analyzer" where
  "analyzeProgram program st = analyzeFunctions program (declareFunctions program st)"

text \<open>
  A new \<^verbatim>\<open>SemanticAnalyzer\<close> followed by \<^verbatim>\<open>analyze()\<close>.  The flag is static, so the run starts
  from the value \<open>flag\<close> that earlier analyzers of the process left; the scopes are the
  instance's own.  Every \<^verbatim>\<open>declare\<close> that throws is caught where it is called, so the
  outer \<^verbatim>\<open>catch\<close> of \<^verbatim>\<open>analyze\<close> has nothing to catch.
\<close>

definition analyze :: "Program \<Rightarrow> bool \<Rightarrow> Analyzer" where
  "analyze program flag =
     analyzeProgram program
       \<lparr>scopes = [Map.empty], currentFunctionReturnType = ''void'', errors = flag, cerr = []\<rparr>"

subsection \<open>The error flag is only ever set\<close>













section \<open>Intermediate representation (ir.h)\<close>

datatype IRValueType = TEMP | GLOBAL | LOCAL | CONSTANT | LABEL

datatype IROpCode =
    ADD | SUB | MUL | DIV | MOD | NEG | CONCAT
  | AND | OR | NOT
  | EQ | NE | LT | GT | LE | GE
  | JMP | JZ | JNZ | CALL | RET
  | LOAD | STORE | LOAD_GLOBAL | STORE_GLOBAL
  | LOAD_INT | LOAD_FLOAT | LOAD_STRING
  | PRINT | INPUT | KEY_PRESSED | SCREEN
  | DRAW_PIXEL | DRAW_RECT | DRAW_LINE | DRAW_CIRCLE | CLEAR_SCREEN | PRESENT
  | LABEL | NOP

record IRValue =
  iv_type :: IRValueType
  iv_name :: string
  iv_id :: int

text \<open>The default arguments of the constructor: \<^verbatim>\<open>IRValue(Type::TEMP, "", -1)\<close>.\<close>

definition IRValue_default :: IRValue where
  "IRValue_default = \<lparr>iv_type = TEMP, iv_name = [], iv_id = - 1\<rparr>"

record IRInstruction =
  ins_opcode :: IROpCode
  ins_operands :: "IRValue list"
  ins_result :: IRValue
  ins_label :: string
  ins_prompt :: string

text \<open>\<^verbatim>\<open>IRInstruction(IROpCode op)\<close>: every other member default-constructed.\<close>

definition IRInstruction_new :: "IROpCode \<Rightarrow> IRInstruction" where
  "IRInstruction_new op =
     \<lparr>ins_opcode = op, ins_operands = [], ins_result = IRValue_default, ins_label = [],
      ins_prompt = []\<rparr>"

record IRFunction =
  irf_name :: string
  irf_returnType :: string
  irf_parameters :: "(string \<times> string) list"
  irf_instructions :: "IRInstruction list"

type_synonym IRProgram = "IRFunction list"

subsection \<open>Decimal text of an integer (\<^verbatim>\<open>std::to_string\<close>, \<^verbatim>\<open>operator<<\<close>)\<close>

definition digit_char :: "nat \<Rightarrow> char" where
  "digit_char d = char_of (48 + d)"

fun nat_to_string :: "nat \<Rightarrow> string" where
  "nat_to_string n =
     (if n < 10 then [digit_char n] else nat_to_string (n div 10) @ [digit_char (n mod 10)])"

declare nat_to_string.simps [simp del]

definition to_string :: "int \<Rightarrow> string" where
  "to_string i = (if i < 0 then CHR ''-'' # nat_to_string (nat (- i)) else nat_to_string (nat i))"

definition toString :: "IRValue \<Rightarrow> string" where
  "toString v =
     (case iv_type v of
        TEMP \<Rightarrow> ''t'' @ to_string (iv_id v)
      | GLOBAL \<Rightarrow> ''g_'' @ iv_name v
      | LOCAL \<Rightarrow> ''l_'' @ iv_name v
      | CONSTANT \<Rightarrow> iv_name v
      | IRValueType.LABEL \<Rightarrow> iv_name v)"

section \<open>IR generator\<close>

text \<open>
  The generator's members.  \<^verbatim>\<open>currentFunction\<close> points at the last element of
  \<^verbatim>\<open>program.functions\<close> once a function has been visited and is null before; it is read
  off \<open>gen_program\<close>.
\<close>

record IRGenerator =
  gen_program :: IRProgram
  tempCounter :: int
  labelCounter :: int
  symbolTable :: "string \<rightharpoonup> IRValue"

definition IRGenerator_new :: IRGenerator where
  "IRGenerator_new =
     \<lparr>gen_program = [], tempCounter = 0, labelCounter = 0, symbolTable = Map.empty\<rparr>"

definition createTemp :: "IRGenerator \<Rightarrow> IRValue \<times> IRGenerator" where
  "createTemp g =
     (\<lparr>iv_type = TEMP, iv_name = ''t'' @ to_string (tempCounter g), iv_id = tempCounter g\<rparr>,
      g\<lparr>tempCounter := tempCounter g + 1\<rparr>)"

definition createLabel :: "IRGenerator \<Rightarrow> string \<times> IRGenerator" where
  "createLabel g = (''L'' @ to_string (labelCounter g), g\<lparr>labelCounter := labelCounter g + 1\<rparr>)"

definition emitInstruction :: "IRInstruction \<Rightarrow> IRGenerator \<Rightarrow> IRGenerator" where
  "emitInstruction instr g =
     (case rev (gen_program g) of
        [] \<Rightarrow> g
      | cur # earlier \<Rightarrow>
          g\<lparr>gen_program :=
               rev earlier @ [cur\<lparr>irf_instructions := irf_instructions cur @ [instr]\<rparr>]\<rparr>)"

fun tokenTypeToOpCode :: "TokenType \<Rightarrow> IROpCode" where
  "tokenTypeToOpCode PLUS = ADD"
| "tokenTypeToOpCode MINUS = SUB"
| "tokenTypeToOpCode STAR = MUL"
| "tokenTypeToOpCode SLASH = DIV"
| "tokenTypeToOpCode PERCENT = MOD"
| "tokenTypeToOpCode TokenType.AND = IROpCode.AND"
| "tokenTypeToOpCode TokenType.OR = IROpCode.OR"
| "tokenTypeToOpCode COMMA = CONCAT"
| "tokenTypeToOpCode TokenType.NOT = IROpCode.NOT"
| "tokenTypeToOpCode EQUAL = EQ"
| "tokenTypeToOpCode NOT_EQUAL = NE"
| "tokenTypeToOpCode LESS = LT"
| "tokenTypeToOpCode GREATER = GT"
| "tokenTypeToOpCode LESS_EQUAL = LE"
| "tokenTypeToOpCode GREATER_EQUAL = GE"
| "tokenTypeToOpCode _ = NOP"

definition emitOp :: "IROpCode \<Rightarrow> IRValue list \<Rightarrow> IRValue \<Rightarrow> IRGenerator \<Rightarrow> IRGenerator" where
  "emitOp op operands result g =
     emitInstruction ((IRInstruction_new op)\<lparr>ins_operands := operands, ins_result := result\<rparr>) g"

definition emitLabelled :: "IROpCode \<Rightarrow> IRValue list \<Rightarrow> string \<Rightarrow> IRGenerator \<Rightarrow> IRGenerator" where
  "emitLabelled op operands l g =
     emitInstruction ((IRInstruction_new op)\<lparr>ins_operands := operands, ins_label := l\<rparr>) g"

definition emitCall :: "string \<Rightarrow> IRValue list \<Rightarrow> IRValue \<Rightarrow> IRGenerator \<Rightarrow> IRGenerator" where
  "emitCall l operands result g =
     emitInstruction
       ((IRInstruction_new CALL)\<lparr>ins_operands := operands, ins_result := result, ins_label := l\<rparr>) g"

text \<open>The text of a prompt that is a string literal, for \<^verbatim>\<open>instr.prompt\<close>.\<close>

fun promptText :: "expr option \<Rightarrow> string" where
  "promptText (Some (Literal STRING v)) = v"
| "promptText _ = []"

definition visitLiteral :: "TokenType \<Rightarrow> string \<Rightarrow> IRGenerator \<Rightarrow> IRValue \<times> IRGenerator" where
  "visitLiteral ty v g =
     (let val = \<lparr>iv_type = CONSTANT, iv_name = v, iv_id = - 1\<rparr> in
      if ty = INTEGER \<or> ty = FLOAT \<or> ty = STRING
      then (case createTemp g of (result, g1) \<Rightarrow>
              (result,
               emitOp (if ty = INTEGER then LOAD_INT else if ty = FLOAT then LOAD_FLOAT
                       else LOAD_STRING) [val] result g1))
      else (val, g))"

text \<open>Find the variable in the symbol table, or enter it as a local.\<close>

definition resolveLocal :: "string \<Rightarrow> IRGenerator \<Rightarrow> IRValue \<times> IRGenerator" where
  "resolveLocal n g =
     (case symbolTable g n of
        Some v \<Rightarrow> (v, g)
      | None \<Rightarrow>
          (let var = \<lparr>iv_type = LOCAL, iv_name = n, iv_id = - 1\<rparr>
           in (var, g\<lparr>symbolTable := (symbolTable g)(n \<mapsto> var)\<rparr>)))"

definition graphicsOpCode :: "string \<Rightarrow> IROpCode option" where
  "graphicsOpCode n =
     (if n = ''screen'' then Some SCREEN
      else if n = ''clearScreen'' then Some CLEAR_SCREEN
      else if n = ''drawPixel'' then Some DRAW_PIXEL
      else if n = ''drawRect'' then Some DRAW_RECT
      else if n = ''drawLine'' then Some DRAW_LINE
      else if n = ''drawCircle'' then Some DRAW_CIRCLE
      else None)"

fun visitExpression :: "expr \<Rightarrow> IRGenerator \<Rightarrow> IRValue \<times> IRGenerator"
  and visitArguments :: "expr list \<Rightarrow> IRGenerator \<Rightarrow> IRValue list \<times> IRGenerator" where
  "visitExpression (BinaryOp left op right) g =
     (case visitExpression left g of (l, g1) \<Rightarrow>
      case visitExpression right g1 of (r, g2) \<Rightarrow>
      case createTemp g2 of (result, g3) \<Rightarrow>
        (result,
         emitOp (if op = TokenType.OR \<or> op = COMMA then CONCAT else tokenTypeToOpCode op)
           [l, r] result g3))"
| "visitExpression (UnaryOp op operand) g =
     (case visitExpression operand g of (v, g1) \<Rightarrow>
      case createTemp g1 of (result, g2) \<Rightarrow>
        (result, emitOp (tokenTypeToOpCode op) [v] result g2))"
| "visitExpression (Literal ty v) g = visitLiteral ty v g"
| "visitExpression (Identifier n) g = resolveLocal n g"
| "visitExpression (FunctionCall n arguments) g =
     (case createTemp g of (result, g1) \<Rightarrow>
        (case graphicsOpCode n of
           Some op \<Rightarrow>
             (case visitArguments arguments g1 of (argVals, g2) \<Rightarrow>
                (result, emitOp op argVals result g2))
         | None \<Rightarrow>
             if n = ''display'' then (result, emitOp PRESENT [] result g1)
             else if n = ''quit'' then (result, emitCall ''quit'' [] result g1)
             else if n = ''isKeyDown'' then
               (case arguments of
                  [] \<Rightarrow> (result, emitCall ''isKeyDown'' [] result g1)
                | a # _ \<Rightarrow>
                    (case visitExpression a g1 of (keyVal, g2) \<Rightarrow>
                       (result, emitCall ''isKeyDown'' [keyVal] result g2)))
             else if n = ''updateInput'' then (result, emitCall ''updateInput'' [] result g1)
             else
               (case visitArguments arguments g1 of (argVals, g2) \<Rightarrow>
                  (result, emitCall n argVals result g2))))"
| "visitExpression (Assignment n v) g =
     (case visitExpression v g of (val, g1) \<Rightarrow>
      case resolveLocal n g1 of (var, g2) \<Rightarrow>
        (var, emitOp STORE [val] var g2))"
| "visitExpression (ArrayAccess array index) g =
     (case visitExpression array g of (a, g1) \<Rightarrow>
      case visitExpression index g1 of (i, g2) \<Rightarrow>
      case createTemp g2 of (result, g3) \<Rightarrow>
        (result, emitOp LOAD [a, i] result g3))"
| "visitExpression (InputCall prompt) g =
     (case createTemp g of (result, g1) \<Rightarrow>
        (result,
         emitInstruction
           ((IRInstruction_new INPUT)\<lparr>ins_result := result, ins_prompt := promptText prompt\<rparr>) g1))"
| "visitExpression (KeyPressedCall prompt) g =
     (case createTemp g of (result, g1) \<Rightarrow> (result, emitOp KEY_PRESSED [] result g1))"
| "visitArguments [] g = ([], g)"
| "visitArguments (arg # args) g =
     (case visitExpression arg g of (v, g1) \<Rightarrow>
      case visitArguments args g1 of (vs, g2) \<Rightarrow> (v # vs, g2))"

definition visitVariableDecl :: "string \<Rightarrow> expr option \<Rightarrow> IRGenerator \<Rightarrow> IRGenerator" where
  "visitVariableDecl n initializer g =
     (let var = \<lparr>iv_type = LOCAL, iv_name = n, iv_id = - 1\<rparr>;
          g1 = g\<lparr>symbolTable := (symbolTable g)(n \<mapsto> var)\<rparr>
      in case initializer of
           None \<Rightarrow> g1
         | Some e \<Rightarrow> (case visitExpression e g1 of (val, g2) \<Rightarrow> emitOp STORE [val] var g2))"

definition visitReturnStatement :: "expr option \<Rightarrow> IRGenerator \<Rightarrow> IRGenerator" where
  "visitReturnStatement expression g =
     (case expression of
        Some e \<Rightarrow> (case visitExpression e g of (val, g1) \<Rightarrow> emitLabelled RET [val] [] g1)
      | None \<Rightarrow> emitLabelled RET [] [] g)"

fun visitStatement :: "stmt \<Rightarrow> IRGenerator \<Rightarrow> IRGenerator"
  and visitBlockStatement :: "stmt list \<Rightarrow> IRGenerator \<Rightarrow> IRGenerator" where
  "visitStatement (BlockStatement statements) g = visitBlockStatement statements g"
| "visitStatement (ReturnStatement expression) g = visitReturnStatement expression g"
| "visitStatement (IfStatement condition thenBranch elseBranch) g =
     (case visitExpression condition g of (cond, g1) \<Rightarrow>
      case createLabel g1 of (thenLabel, g2) \<Rightarrow>
      case createLabel g2 of (elseLabel, g3) \<Rightarrow>
      case createLabel g3 of (endLabel, g4) \<Rightarrow>
      let g5 = emitLabelled JZ [cond] elseLabel g4;
          g6 = emitLabelled LABEL [] thenLabel g5;
          g7 = visitStatement thenBranch g6;
          g8 = emitLabelled JMP [] endLabel g7;
          g9 = emitLabelled LABEL [] elseLabel g8;
          g10 = (case elseBranch of None \<Rightarrow> g9 | Some s \<Rightarrow> visitStatement s g9)
      in emitLabelled LABEL [] endLabel g10)"
| "visitStatement (WhileStatement condition body) g =
     (case createLabel g of (loopLabel, g1) \<Rightarrow>
      case createLabel g1 of (endLabel, g2) \<Rightarrow>
      let g3 = emitLabelled LABEL [] loopLabel g2 in
      case visitExpression condition g3 of (cond, g4) \<Rightarrow>
      let g5 = emitLabelled JZ [cond] endLabel g4;
          g6 = visitStatement body g5;
          g7 = emitLabelled JMP [] loopLabel g6
      in emitLabelled LABEL [] endLabel g7)"
| "visitStatement (ForStatement init condition increment body) g =
     (let g0 = (case init of None \<Rightarrow> g | Some s \<Rightarrow> visitStatement s g) in
      case createLabel g0 of (loopLabel, g1) \<Rightarrow>
      case createLabel g1 of (endLabel, g2) \<Rightarrow>
      let g3 = emitLabelled LABEL [] loopLabel g2;
          g4 = (case condition of
                  None \<Rightarrow> g3
                | Some e \<Rightarrow>
                    (case visitExpression e g3 of (cond, g') \<Rightarrow> emitLabelled JZ [cond] endLabel g'));
          g5 = visitStatement body g4;
          g6 = (case increment of None \<Rightarrow> g5 | Some e \<Rightarrow> snd (visitExpression e g5));
          g7 = emitLabelled JMP [] loopLabel g6
      in emitLabelled LABEL [] endLabel g7)"
| "visitStatement (VariableDecl n ty initializer) g = visitVariableDecl n initializer g"
| "visitStatement (ExpressionStatement expression) g = snd (visitExpression expression g)"
| "visitStatement (PrintStatement expression) g =
     (case visitExpression expression g of (val, g1) \<Rightarrow> emitLabelled PRINT [val] [] g1)"
| "visitBlockStatement [] g = g"
| "visitBlockStatement (s # ss) g = visitBlockStatement ss (visitStatement s g)"

fun addParameters :: "(string \<times> string) list \<Rightarrow> (string \<rightharpoonup> IRValue) \<Rightarrow> (string \<rightharpoonup> IRValue)" where
  "addParameters [] tab = tab"
| "addParameters (param # params) tab =
     addParameters params
       (tab(snd param \<mapsto> \<lparr>iv_type = LOCAL, iv_name = snd param, iv_id = - 1\<rparr>))"

text \<open>
  \<^verbatim>\<open>visitFunction\<close> clears the symbol table and sets \<^verbatim>\<open>tempCounter\<close> to 0; it does not touch
  \<^verbatim>\<open>labelCounter\<close>.
\<close>

definition visitFunction :: "FunctionDecl \<Rightarrow> IRGenerator \<Rightarrow> IRGenerator" where
  "visitFunction func g =
     visitStatement (fd_body func)
       (g\<lparr>gen_program :=
            gen_program g @
              [\<lparr>irf_name = fd_name func, irf_returnType = fd_returnType func,
                irf_parameters = fd_parameters func, irf_instructions = []\<rparr>],
          tempCounter := 0,
          symbolTable := addParameters (fd_parameters func) Map.empty\<rparr>)"

fun visitProgram :: "Program \<Rightarrow> IRGenerator \<Rightarrow> IRGenerator" where
  "visitProgram [] g = g"
| "visitProgram (func # funcs) g = visitProgram funcs (visitFunction func g)"

definition generate :: "Program \<Rightarrow> IRProgram" where
  "generate ast = gen_program (visitProgram ast IRGenerator_new)"


section \<open>Interpreter (main.cpp)\<close>

text \<open>
  \<^verbatim>\<open>using Value = std::variant<int, double, std::string, bool>\<close>.  An \<^verbatim>\<open>int\<close> is a 32-bit
  two's complement integer: it is modelled by the integer it denotes, every result of
  arithmetic reduced into the range by \<open>wrap32\<close> (signed overflow, which C++ leaves
  undefined, wraps around).  A \<^verbatim>\<open>double\<close> is modelled by the real number it denotes.
\<close>

datatype Value = VInt int | VDouble real | VString string | VBool bool

datatype exn =
    runtime_error string
  | invalid_argument string
  | out_of_range string
  | bad_variant_access
  | unexpected_token string TokenType

definition INT_MIN :: int where "INT_MIN = - (2 ^ 31)"
definition INT_MAX :: int where "INT_MAX = 2 ^ 31 - 1"

definition wrap32 :: "int \<Rightarrow> int" where
  "wrap32 x = (x + 2 ^ 31) mod 2 ^ 32 - 2 ^ 31"

definition isspace :: "char \<Rightarrow> bool" where
  "isspace c = (c = CHR '' '' \<or> (9 \<le> (of_char c :: nat) \<and> (of_char c :: nat) \<le> 13))"

definition isdigit :: "char \<Rightarrow> bool" where
  "isdigit c = (48 \<le> (of_char c :: nat) \<and> (of_char c :: nat) \<le> 57)"

fun digits_value :: "nat \<Rightarrow> string \<Rightarrow> nat" where
  "digits_value acc [] = acc"
| "digits_value acc (c # cs) = digits_value (acc * 10 + (of_char c - 48)) cs"

text \<open>
  \<^verbatim>\<open>std::stoi\<close>: leading white space, an optional sign, then decimal digits up to the first
  character that is none; \<^verbatim>\<open>std::invalid_argument\<close> without a digit,
  \<^verbatim>\<open>std::out_of_range\<close> outside the range of \<^verbatim>\<open>int\<close>.
\<close>

definition stoi :: "string \<Rightarrow> exn + int" where
  "stoi s =
     (let s1 = dropWhile isspace s;
          negative = (s1 \<noteq> [] \<and> hd s1 = CHR ''-'');
          s2 = (if s1 \<noteq> [] \<and> (hd s1 = CHR ''-'' \<or> hd s1 = CHR ''+'') then tl s1 else s1);
          ds = takeWhile isdigit s2;
          v = (if negative then - int (digits_value 0 ds) else int (digits_value 0 ds))
      in if ds = [] then Inl (invalid_argument ''stoi'')
         else if v < INT_MIN \<or> INT_MAX < v then Inl (out_of_range ''stoi'')
         else Inr v)"

text \<open>\<^verbatim>\<open>static_cast<int>(double)\<close> discards the fraction.\<close>

definition double_to_int :: "real \<Rightarrow> int" where
  "double_to_int d = wrap32 (if 0 \<le> d then \<lfloor>d\<rfloor> else \<lceil>d\<rceil>)"

text \<open>
  What the interpreter takes from outside the sources: the C++ library's reading and
  printing of a \<^verbatim>\<open>double\<close>, and the graphics collaborator's answers.
\<close>

record Platform =
  p_stod :: "string \<Rightarrow> exn + real"
  p_cout_double :: "real \<Rightarrow> string"
  p_to_string_double :: "real \<Rightarrow> string"
  p_window_error :: "string option"
  p_isKeyPressed :: "string \<Rightarrow> bool"

text \<open>
  The state of \<^verbatim>\<open>interpretIR\<close>: the map \<^verbatim>\<open>temps\<close> (read only through \<^verbatim>\<open>operator[]\<close>, so a
  key never written reads as the default-constructed \<^verbatim>\<open>Value\<close>, the \<^verbatim>\<open>int\<close> 0), the
  instruction pointer, whether \<^verbatim>\<open>g_graphics\<close> is non-null, what has been written to
  \<^verbatim>\<open>std::cout\<close> and \<^verbatim>\<open>std::cerr\<close>, and what is still to come from outside: the lines of
  standard input, the keys, the answers of \<^verbatim>\<open>shouldClose()\<close>.
\<close>

record Interp =
  temps :: "string \<Rightarrow> Value"
  ip :: nat
  g_graphics :: bool
  cout :: string
  interp_cerr :: string
  in_lines :: "string list"
  in_keys :: string
  in_shouldClose :: "bool list"

datatype step_result = Next Interp | Throw exn | ExitProcess int | Undefined

text \<open>The lambda \<^verbatim>\<open>toInt\<close> of the arithmetic opcodes.\<close>

fun toInt :: "Value \<Rightarrow> exn + int" where
  "toInt (VInt i) = Inr i"
| "toInt (VDouble d) = Inr (double_to_int d)"
| "toInt (VString s) = stoi s"
| "toInt (VBool b) = Inl (runtime_error ''Cannot convert to int'')"

text \<open>The lambda \<^verbatim>\<open>toInt\<close> of the graphics opcodes, which yields 0 where the other throws.\<close>

fun toIntOrZero :: "Value \<Rightarrow> int" where
  "toIntOrZero (VInt i) = i"
| "toIntOrZero (VDouble d) = double_to_int d"
| "toIntOrZero (VString s) = (case stoi s of Inr i \<Rightarrow> i | Inl e \<Rightarrow> 0)"
| "toIntOrZero (VBool b) = 0"

fun toDisplay :: "Platform \<Rightarrow> Value \<Rightarrow> string" where
  "toDisplay pf (VInt i) = to_string i"
| "toDisplay pf (VDouble d) = p_to_string_double pf d"
| "toDisplay pf (VBool b) = (if b then ''true'' else ''false'')"
| "toDisplay pf (VString s) = s"

fun printed :: "Platform \<Rightarrow> Value \<Rightarrow> string" where
  "printed pf (VInt i) = to_string i"
| "printed pf (VDouble d) = p_cout_double pf d"
| "printed pf (VBool b) = (if b then ''true'' else ''false'')"
| "printed pf (VString s) = s"

text \<open>\<^verbatim>\<open>std::string::operator<\<close>: lexicographic on the bytes.\<close>

fun string_less :: "string \<Rightarrow> string \<Rightarrow> bool" where
  "string_less [] [] = False"
| "string_less [] (y # ys) = True"
| "string_less (x # xs) [] = False"
| "string_less (x # xs) (y # ys) =
     ((of_char x :: nat) < of_char y \<or> (x = y \<and> string_less xs ys))"

datatype comparison = CmpLT | CmpGT | CmpLE | CmpGE | CmpEQ | CmpNE

fun compare_int :: "comparison \<Rightarrow> int \<Rightarrow> int \<Rightarrow> bool" where
  "compare_int CmpLT x y = (x < y)"
| "compare_int CmpGT x y = (x > y)"
| "compare_int CmpLE x y = (x \<le> y)"
| "compare_int CmpGE x y = (x \<ge> y)"
| "compare_int CmpEQ x y = (x = y)"
| "compare_int CmpNE x y = (x \<noteq> y)"

fun compare_double :: "comparison \<Rightarrow> real \<Rightarrow> real \<Rightarrow> bool" where
  "compare_double CmpLT x y = (x < y)"
| "compare_double CmpGT x y = (x > y)"
| "compare_double CmpLE x y = (x \<le> y)"
| "compare_double CmpGE x y = (x \<ge> y)"
| "compare_double CmpEQ x y = (x = y)"
| "compare_double CmpNE x y = (x \<noteq> y)"

fun compare_string :: "comparison \<Rightarrow> string \<Rightarrow> string \<Rightarrow> bool" where
  "compare_string CmpLT x y = string_less x y"
| "compare_string CmpGT x y = string_less y x"
| "compare_string CmpLE x y = (\<not> string_less y x)"
| "compare_string CmpGE x y = (\<not> string_less x y)"
| "compare_string CmpEQ x y = (x = y)"
| "compare_string CmpNE x y = (x \<noteq> y)"

fun comparison_name :: "comparison \<Rightarrow> string" where
  "comparison_name CmpLT = ''LT''"
| "comparison_name CmpGT = ''GT''"
| "comparison_name CmpLE = ''LE''"
| "comparison_name CmpGE = ''GE''"
| "comparison_name CmpEQ = ''EQ''"
| "comparison_name CmpNE = ''NE''"

text \<open>The \<^verbatim>\<open>std::visit\<close> of the six comparison opcodes.\<close>

fun compareValues :: "comparison \<Rightarrow> Value \<Rightarrow> Value \<Rightarrow> exn + int" where
  "compareValues c (VInt x) (VInt y) = Inr (if compare_int c x y then 1 else 0)"
| "compareValues c (VInt x) (VDouble y) = Inr (if compare_double c (of_int x) y then 1 else 0)"
| "compareValues c (VDouble x) (VInt y) = Inr (if compare_double c x (of_int y) then 1 else 0)"
| "compareValues c (VDouble x) (VDouble y) = Inr (if compare_double c x y then 1 else 0)"
| "compareValues c (VString x) (VString y) = Inr (if compare_string c x y then 1 else 0)"
| "compareValues c a b = Inl (runtime_error (''Invalid types for '' @ comparison_name c))"

text \<open>
  \<^verbatim>\<open>temps[instr.operands[i].toString()]\<close>.  Indexing the vector past its end is undefined
  behaviour; the model says so with \<open>None\<close>.
\<close>

definition operand :: "IRInstruction \<Rightarrow> nat \<Rightarrow> Interp \<Rightarrow> Value option" where
  "operand instr i st =
     (if i < length (ins_operands instr) then Some (temps st (toString (ins_operands instr ! i)))
      else None)"

text \<open>\<^verbatim>\<open>temps[instr.result.toString()] = v\<close>, followed by the \<^verbatim>\<open>ip++\<close> at the end of the loop body.\<close>

definition store :: "IRInstruction \<Rightarrow> Value \<Rightarrow> Interp \<Rightarrow> step_result" where
  "store instr v st =
     Next (st\<lparr>temps := (temps st)(toString (ins_result instr) := v), ip := ip st + 1\<rparr>)"

definition advance_ip :: "Interp \<Rightarrow> step_result" where
  "advance_ip st = Next (st\<lparr>ip := ip st + 1\<rparr>)"

text \<open>\<^verbatim>\<open>ADD\<close>, \<^verbatim>\<open>SUB\<close>, \<^verbatim>\<open>MUL\<close>; the left operand is converted first.\<close>

definition arithmetic :: "(int \<Rightarrow> int \<Rightarrow> int) \<Rightarrow> IRInstruction \<Rightarrow> Interp \<Rightarrow> step_result" where
  "arithmetic f instr st =
     (case (operand instr 0 st, operand instr 1 st) of
        (Some a, Some b) \<Rightarrow>
          (case toInt a of
             Inl e \<Rightarrow> Throw e
           | Inr x \<Rightarrow>
               (case toInt b of
                  Inl e \<Rightarrow> Throw e
                | Inr y \<Rightarrow> store instr (VInt (wrap32 (f x y))) st))
      | _ \<Rightarrow> Undefined)"

text \<open>
  \<^verbatim>\<open>DIV\<close> and \<^verbatim>\<open>MOD\<close>: the divisor is converted and tested first.  C++ division truncates
  towards zero (\<open>sdiv\<close>, \<open>smod\<close>).
\<close>

definition division :: "(int \<Rightarrow> int \<Rightarrow> int) \<Rightarrow> IRInstruction \<Rightarrow> Interp \<Rightarrow> step_result" where
  "division f instr st =
     (case (operand instr 0 st, operand instr 1 st) of
        (Some a, Some b) \<Rightarrow>
          (case toInt b of
             Inl e \<Rightarrow> Throw e
           | Inr divisor \<Rightarrow>
               if divisor = 0 then Throw (runtime_error ''Division by zero'')
               else (case toInt a of
                       Inl e \<Rightarrow> Throw e
                     | Inr x \<Rightarrow> store instr (VInt (wrap32 (f x divisor))) st))
      | _ \<Rightarrow> Undefined)"

definition compareOp :: "comparison \<Rightarrow> IRInstruction \<Rightarrow> Interp \<Rightarrow> step_result" where
  "compareOp c instr st =
     (case (operand instr 0 st, operand instr 1 st) of
        (Some a, Some b) \<Rightarrow>
          (case compareValues c a b of
             Inl e \<Rightarrow> Throw e
           | Inr r \<Rightarrow> store instr (VInt r) st)
      | _ \<Rightarrow> Undefined)"

text \<open>
  The drawing opcodes: with a window and at least \<open>k\<close> operands the arguments are converted
  (which cannot throw) and handed to the collaborator, and 1 is stored; otherwise nothing
  happens.  What is drawn is the collaborator's business.
\<close>

definition drawOp :: "nat \<Rightarrow> IRInstruction \<Rightarrow> Interp \<Rightarrow> step_result" where
  "drawOp k instr st =
     (if g_graphics st \<and> k \<le> length (ins_operands instr) then store instr (VInt 1) st
      else advance_ip st)"

fun screenTitle :: "Platform \<Rightarrow> Value \<Rightarrow> string" where
  "screenTitle pf (VString s) = s"
| "screenTitle pf (VInt i) = to_string i"
| "screenTitle pf (VDouble d) = p_to_string_double pf d"
| "screenTitle pf (VBool b) = []"

definition screenOp :: "Platform \<Rightarrow> IRInstruction \<Rightarrow> Interp \<Rightarrow> step_result" where
  "screenOp pf instr st =
     (if 3 \<le> length (ins_operands instr) then
        (let width = toIntOrZero (temps st (toString (ins_operands instr ! 0)));
             height = toIntOrZero (temps st (toString (ins_operands instr ! 1)));
             title = screenTitle pf (temps st (toString (ins_operands instr ! 2)))
         in case p_window_error pf of
              None \<Rightarrow>
                store instr (VInt 1)
                  (st\<lparr>g_graphics := True,
                      cout := cout st @ [CHR 0x1B] @ ''[2J'' @ [CHR 0x1B] @ ''[1;1H''
                              @ ''Graphics window created: '' @ to_string width @ ''x''
                              @ to_string height @ '' - '' @ title @ [CHR 0x0A]\<rparr>)
            | Some what \<Rightarrow>
                store instr (VInt 1)
                  (st\<lparr>interp_cerr := interp_cerr st @ ''Failed to create graphics window: ''
                                      @ what @ [CHR 0x0A]\<rparr>))
      else store instr (VInt 1) st)"

definition presentOp :: "nat \<Rightarrow> IRInstruction \<Rightarrow> Interp \<Rightarrow> step_result" where
  "presentOp len instr st =
     (if g_graphics st then
        (case in_shouldClose st of
           True # answers \<Rightarrow> Next (st\<lparr>g_graphics := False, ip := len, in_shouldClose := answers\<rparr>)
         | _ \<Rightarrow> store instr (VInt 1) (st\<lparr>in_shouldClose := tl (in_shouldClose st)\<rparr>))
      else store instr (VInt 1) st)"

fun keyString :: "Value \<Rightarrow> string" where
  "keyString (VString s) = s"
| "keyString (VInt i) = to_string i"
| "keyString (VDouble d) = to_string (double_to_int d)"
| "keyString (VBool b) = []"

definition knownKeys :: "string list" where
  "knownKeys = [''a'', ''d'', ''w'', ''s'', ''space'', ''left'', ''right'', ''up'', ''down'', ''escape'']"

definition isKeyDownOp :: "Platform \<Rightarrow> IRInstruction \<Rightarrow> Interp \<Rightarrow> step_result" where
  "isKeyDownOp pf instr st =
     (if g_graphics st \<and> ins_operands instr \<noteq> [] then
        (let keyStr = keyString (temps st (toString (ins_operands instr ! 0)))
         in if keyStr \<in> set knownKeys \<and> p_isKeyPressed pf keyStr
            then store instr (VInt 1)
                   (st\<lparr>cout := cout st @ ''Key detected: '' @ keyStr @ [CHR 0x0A]\<rparr>)
            else store instr (VInt 0) st)
      else store instr (VInt 0) st)"

text \<open>
  One turn of the dispatch loop on the instruction at \<open>ip\<close>.  The opcodes that the chain of
  \<^verbatim>\<open>if\<close>s does not name (\<^verbatim>\<open>RET\<close>, \<^verbatim>\<open>AND\<close>, \<^verbatim>\<open>OR\<close>, \<^verbatim>\<open>NOT\<close>, \<^verbatim>\<open>NEG\<close>, \<^verbatim>\<open>JNZ\<close>, \<^verbatim>\<open>LOAD\<close>, a
  \<^verbatim>\<open>CALL\<close> of any other name, ...) fall through to \<^verbatim>\<open>ip++\<close>, as \<^verbatim>\<open>LABEL\<close> does.
\<close>

definition step ::
  "Platform \<Rightarrow> (string \<Rightarrow> nat) \<Rightarrow> nat \<Rightarrow> IRInstruction \<Rightarrow> Interp \<Rightarrow> step_result" where
  "step pf labels len instr st =
     (case ins_opcode instr of
        LOAD_INT \<Rightarrow>
          (case ins_operands instr of
             [] \<Rightarrow> Undefined
           | v # _ \<Rightarrow> (case stoi (iv_name v) of Inl e \<Rightarrow> Throw e | Inr i \<Rightarrow> store instr (VInt i) st))
      | LOAD_FLOAT \<Rightarrow>
          (case ins_operands instr of
             [] \<Rightarrow> Undefined
           | v # _ \<Rightarrow>
               (case p_stod pf (iv_name v) of Inl e \<Rightarrow> Throw e | Inr d \<Rightarrow> store instr (VDouble d) st))
      | LOAD_STRING \<Rightarrow>
          (case ins_operands instr of
             [] \<Rightarrow> Undefined
           | v # _ \<Rightarrow> store instr (VString (iv_name v)) st)
      | ADD \<Rightarrow> arithmetic (+) instr st
      | SUB \<Rightarrow> arithmetic (-) instr st
      | MUL \<Rightarrow> arithmetic (*) instr st
      | DIV \<Rightarrow> division (sdiv) instr st
      | MOD \<Rightarrow> division (smod) instr st
      | CONCAT \<Rightarrow>
          (case (operand instr 0 st, operand instr 1 st) of
             (Some a, Some b) \<Rightarrow> store instr (VString (toDisplay pf a @ toDisplay pf b)) st
           | _ \<Rightarrow> Undefined)
      | IROpCode.PRINT \<Rightarrow>
          (case operand instr 0 st of
             Some v \<Rightarrow> Next (st\<lparr>cout := cout st @ printed pf v, ip := ip st + 1\<rparr>)
           | None \<Rightarrow> Undefined)
      | LT \<Rightarrow> compareOp CmpLT instr st
      | GT \<Rightarrow> compareOp CmpGT instr st
      | LE \<Rightarrow> compareOp CmpLE instr st
      | GE \<Rightarrow> compareOp CmpGE instr st
      | EQ \<Rightarrow> compareOp CmpEQ instr st
      | NE \<Rightarrow> compareOp CmpNE instr st
      | JZ \<Rightarrow>
          (case operand instr 0 st of
             Some (VInt cond) \<Rightarrow>
               if cond = 0 then Next (st\<lparr>ip := labels (ins_label instr)\<rparr>) else advance_ip st
           | Some _ \<Rightarrow> Throw bad_variant_access
           | None \<Rightarrow> Undefined)
      | JMP \<Rightarrow> Next (st\<lparr>ip := labels (ins_label instr)\<rparr>)
      | STORE \<Rightarrow>
          (case operand instr 0 st of Some v \<Rightarrow> store instr v st | None \<Rightarrow> Undefined)
      | IROpCode.INPUT \<Rightarrow>
          store instr (VString (case in_lines st of [] \<Rightarrow> [] | l # _ \<Rightarrow> l))
            (st\<lparr>cout := cout st @ ins_prompt instr, in_lines := tl (in_lines st)\<rparr>)
      | IROpCode.KEY_PRESSED \<Rightarrow>
          (case in_keys st of
             [] \<Rightarrow> Undefined
           | key # keys \<Rightarrow> store instr (VString [key]) (st\<lparr>in_keys := keys\<rparr>))
      | IROpCode.SCREEN \<Rightarrow> screenOp pf instr st
      | IROpCode.DRAW_PIXEL \<Rightarrow> drawOp 5 instr st
      | IROpCode.DRAW_RECT \<Rightarrow> drawOp 8 instr st
      | IROpCode.DRAW_LINE \<Rightarrow> drawOp 7 instr st
      | IROpCode.DRAW_CIRCLE \<Rightarrow> drawOp 7 instr st
      | IROpCode.CLEAR_SCREEN \<Rightarrow> drawOp 3 instr st
      | PRESENT \<Rightarrow> presentOp len instr st
      | CALL \<Rightarrow>
          if ins_label instr = ''quit'' then ExitProcess 0
          else if ins_label instr = ''isKeyDown'' then isKeyDownOp pf instr st
          else if ins_label instr = ''updateInput'' then store instr (VInt 1) st
          else advance_ip st
      | _ \<Rightarrow> advance_ip st)"

datatype outcome =
    Finished Interp
  | Thrown exn Interp
  | Exited int Interp
  | UndefinedBehaviour Interp

text \<open>
  \<^verbatim>\<open>while (ip < func.instructions.size())\<close>.  The loop need not end, so it runs on fuel:
  \<open>None\<close> says that \<open>n\<close> turns were not enough.
\<close>

fun run ::
  "nat \<Rightarrow> Platform \<Rightarrow> (string \<Rightarrow> nat) \<Rightarrow> IRInstruction list \<Rightarrow> Interp \<Rightarrow> outcome option" where
  "run 0 pf labels code st = (if ip st < length code then None else Some (Finished st))"
| "run (Suc n) pf labels code st =
     (if ip st < length code then
        (case step pf labels (length code) (code ! ip st) st of
           Next st' \<Rightarrow> run n pf labels code st'
         | Throw e \<Rightarrow> Some (Thrown e st)
         | ExitProcess c \<Rightarrow> Some (Exited c st)
         | Undefined \<Rightarrow> Some (UndefinedBehaviour st))
      else Some (Finished st))"

text \<open>The first pass: the index of each \<^verbatim>\<open>LABEL\<close>; a label not found reads as 0.\<close>

fun findLabels :: "IRInstruction list \<Rightarrow> nat \<Rightarrow> (string \<Rightarrow> nat) \<Rightarrow> (string \<Rightarrow> nat)" where
  "findLabels [] i labels = labels"
| "findLabels (instr # rest) i labels =
     findLabels rest (i + 1)
       (if ins_opcode instr = IROpCode.LABEL then labels(ins_label instr := i) else labels)"

text \<open>
  \<^verbatim>\<open>interpretIR\<close>: every function named \<^verbatim>\<open>main\<close> is executed, in order, each with fresh
  \<^verbatim>\<open>temps\<close> and \<^verbatim>\<open>labels\<close>; the other functions are skipped.
\<close>

fun interpretIR :: "nat \<Rightarrow> Platform \<Rightarrow> IRProgram \<Rightarrow> Interp \<Rightarrow> outcome option" where
  "interpretIR n pf [] st = Some (Finished st)"
| "interpretIR n pf (func # funcs) st =
     (if irf_name func = ''main'' then
        (case run n pf (findLabels (irf_instructions func) 0 (\<lambda>l. 0)) (irf_instructions func)
                (st\<lparr>temps := (\<lambda>k. VInt 0), ip := 0\<rparr>) of
           Some (Finished st') \<Rightarrow> interpretIR n pf funcs st'
         | other \<Rightarrow> other)
      else interpretIR n pf funcs st)"

section \<open>Lexer\<close>

record Token =
  tok_type :: TokenType
  tok_value :: string
  tok_line :: nat
  tok_column :: nat

definition Token_new :: "TokenType \<Rightarrow> string \<Rightarrow> nat \<Rightarrow> nat \<Rightarrow> Token" where
  "Token_new ty v l c = \<lparr>tok_type = ty, tok_value = v, tok_line = l, tok_column = c\<rparr>"

text \<open>
  The lexer never looks behind \<^verbatim>\<open>position\<close>, so its state is the unread rest of the source,
  \<^verbatim>\<open>source.substr(position)\<close>, with the line and the column.
\<close>

record Lexer =
  lx_rest :: string
  lx_line :: nat
  lx_column :: nat

definition Lexer_new :: "string \<Rightarrow> Lexer" where
  "Lexer_new source = \<lparr>lx_rest = source, lx_line = 1, lx_column = 1\<rparr>"

definition isalpha :: "char \<Rightarrow> bool" where
  "isalpha c =
     ((65 \<le> (of_char c :: nat) \<and> (of_char c :: nat) \<le> 90) \<or>
      (97 \<le> (of_char c :: nat) \<and> (of_char c :: nat) \<le> 122))"

definition isalnum :: "char \<Rightarrow> bool" where
  "isalnum c = (isalpha c \<or> isdigit c)"

definition Lexer_keywords :: "(string \<times> TokenType) list" where
  "Lexer_keywords =
     [(''if'', IF), (''elif'', ELIF), (''else'', ELSE), (''while'', WHILE), (''for'', FOR),
      (''return'', RETURN), (''print'', TokenType.PRINT), (''int'', TokenType.INT),
      (''float'', FLOAT_KW), (''bool'', BOOL), (''void'', VOID), (''true'', TRUE_LIT),
      (''false'', FALSE_LIT), (''let'', LET), (''input'', TokenType.INPUT),
      (''key_pressed'', TokenType.KEY_PRESSED), (''screen'', TokenType.SCREEN),
      (''drawPixel'', TokenType.DRAW_PIXEL), (''drawRect'', TokenType.DRAW_RECT),
      (''drawLine'', TokenType.DRAW_LINE), (''drawCircle'', TokenType.DRAW_CIRCLE),
      (''clearScreen'', TokenType.CLEAR_SCREEN), (''display'', DISPLAY), (''quit'', QUIT),
      (''isKeyDown'', IS_KEY_DOWN), (''updateInput'', UPDATE_INPUT)]"

text \<open>The character at \<^verbatim>\<open>position\<close>, or NUL at the end of the source.\<close>

definition currentChar :: "Lexer \<Rightarrow> char" where
  "currentChar lx = (case lx_rest lx of [] \<Rightarrow> CHR 0x00 | c # cs \<Rightarrow> c)"

definition peekChar :: "Lexer \<Rightarrow> char" where
  "peekChar lx = (case lx_rest lx of c # d # cs \<Rightarrow> d | _ \<Rightarrow> CHR 0x00)"

definition advance :: "Lexer \<Rightarrow> Lexer" where
  "advance lx =
     (case lx_rest lx of
        [] \<Rightarrow> lx
      | c # cs \<Rightarrow>
          if c = CHR 0x0A then \<lparr>lx_rest = cs, lx_line = lx_line lx + 1, lx_column = 1\<rparr>
          else \<lparr>lx_rest = cs, lx_line = lx_line lx, lx_column = lx_column lx + 1\<rparr>)"

lemma advance_shorter:
  "currentChar lx \<noteq> CHR 0x00 \<Longrightarrow> length (lx_rest (advance lx)) < length (lx_rest lx)"
  by (auto simp: currentChar_def advance_def split: list.splits)

lemma advance_le: "length (lx_rest (advance lx)) \<le> length (lx_rest lx)"
  by (auto simp: advance_def split: list.splits)

function skipWhitespace :: "Lexer \<Rightarrow> Lexer" where
  "skipWhitespace lx =
     (if currentChar lx \<noteq> CHR 0x00 \<and> isspace (currentChar lx) \<and> currentChar lx \<noteq> CHR 0x0A
      then skipWhitespace (advance lx) else lx)"
  by pat_completeness auto
termination
  by (relation "measure (\<lambda>lx. length (lx_rest lx))") (auto simp: advance_shorter)

declare skipWhitespace.simps [simp del]

function skipLineComment :: "Lexer \<Rightarrow> Lexer" where
  "skipLineComment lx =
     (if currentChar lx \<noteq> CHR 0x00 \<and> currentChar lx \<noteq> CHR 0x0A
      then skipLineComment (advance lx) else lx)"
  by pat_completeness auto
termination
  by (relation "measure (\<lambda>lx. length (lx_rest lx))") (auto simp: advance_shorter)

declare skipLineComment.simps [simp del]

function skipBlockComment :: "Lexer \<Rightarrow> Lexer" where
  "skipBlockComment lx =
     (if currentChar lx \<noteq> CHR 0x00 then
        (if currentChar lx = CHR ''*'' \<and> peekChar lx = CHR ''/'' then advance (advance lx)
         else skipBlockComment (advance lx))
      else lx)"
  by pat_completeness auto
termination
  by (relation "measure (\<lambda>lx. length (lx_rest lx))") (auto simp: advance_shorter)

declare skipBlockComment.simps [simp del]

definition skipComment :: "Lexer \<Rightarrow> Lexer" where
  "skipComment lx =
     (if currentChar lx = CHR ''/'' \<and> peekChar lx = CHR ''/''
      then skipLineComment (advance (advance lx))
      else if currentChar lx = CHR ''/'' \<and> peekChar lx = CHR ''*''
      then skipBlockComment (advance (advance lx))
      else lx)"

function readNumberLoop :: "string \<Rightarrow> Lexer \<Rightarrow> string \<times> Lexer" where
  "readNumberLoop number lx =
     (if currentChar lx \<noteq> CHR 0x00 \<and> (isdigit (currentChar lx) \<or> currentChar lx = CHR ''.'')
      then readNumberLoop (number @ [currentChar lx]) (advance lx) else (number, lx))"
  by pat_completeness auto
termination
  by (relation "measure (\<lambda>(number, lx). length (lx_rest lx))") (auto simp: advance_shorter)

declare readNumberLoop.simps [simp del]

definition readNumber :: "Lexer \<Rightarrow> Token \<times> Lexer" where
  "readNumber lx =
     (let startCol = lx_column lx in
      case readNumberLoop [] lx of (number, lx') \<Rightarrow>
        (Token_new (if CHR ''.'' \<in> set number then FLOAT else INTEGER) number (lx_line lx') startCol,
         lx'))"

definition escaped :: "char \<Rightarrow> char" where
  "escaped c =
     (if c = CHR ''n'' then CHR 0x0A
      else if c = CHR ''t'' then CHR 0x09
      else c)"

function readStringLoop :: "char \<Rightarrow> string \<Rightarrow> Lexer \<Rightarrow> string \<times> Lexer" where
  "readStringLoop quote str lx =
     (if currentChar lx \<noteq> CHR 0x00 \<and> currentChar lx \<noteq> quote then
        (if currentChar lx = CHR 0x5C
         then readStringLoop quote (str @ [escaped (currentChar (advance lx))]) (advance (advance lx))
         else readStringLoop quote (str @ [currentChar lx]) (advance lx))
      else (str, lx))"
  by pat_completeness auto
termination
  by (relation "measure (\<lambda>(quote, str, lx). length (lx_rest lx))")
     (auto simp: advance_shorter intro: le_less_trans [OF advance_le advance_shorter])

declare readStringLoop.simps [simp del]

definition readString :: "Lexer \<Rightarrow> Token \<times> Lexer" where
  "readString lx =
     (let startCol = lx_column lx; quote = currentChar lx in
      case readStringLoop quote [] (advance lx) of (str, lx1) \<Rightarrow>
        (let lx2 = (if currentChar lx1 = quote then advance lx1 else lx1)
         in (Token_new STRING str (lx_line lx2) startCol, lx2)))"

function readIdentifierLoop :: "string \<Rightarrow> Lexer \<Rightarrow> string \<times> Lexer" where
  "readIdentifierLoop identifier lx =
     (if currentChar lx \<noteq> CHR 0x00 \<and> (isalnum (currentChar lx) \<or> currentChar lx = CHR ''_'')
      then readIdentifierLoop (identifier @ [currentChar lx]) (advance lx) else (identifier, lx))"
  by pat_completeness auto
termination
  by (relation "measure (\<lambda>(identifier, lx). length (lx_rest lx))") (auto simp: advance_shorter)

declare readIdentifierLoop.simps [simp del]

definition readIdentifierOrKeyword :: "Lexer \<Rightarrow> Token \<times> Lexer" where
  "readIdentifierOrKeyword lx =
     (let startCol = lx_column lx in
      case readIdentifierLoop [] lx of (identifier, lx') \<Rightarrow>
        (case map_of Lexer_keywords identifier of
           Some ty \<Rightarrow> (Token_new ty identifier (lx_line lx') startCol, lx')
         | None \<Rightarrow> (Token_new IDENTIFIER identifier (lx_line lx') startCol, lx')))"

text \<open>A one-character token: \<^verbatim>\<open>advance(); return Token(ty, text, line, startCol);\<close>\<close>

definition single :: "TokenType \<Rightarrow> string \<Rightarrow> Lexer \<Rightarrow> Token \<times> Lexer" where
  "single ty text lx = (Token_new ty text (lx_line (advance lx)) (lx_column lx), advance lx)"

text \<open>A character that may be followed by \<open>second\<close> to make a two-character token.\<close>

definition maybeDouble ::
  "char \<Rightarrow> TokenType \<Rightarrow> string \<Rightarrow> TokenType \<Rightarrow> string \<Rightarrow> Lexer \<Rightarrow> Token \<times> Lexer" where
  "maybeDouble second ty2 text2 ty1 text1 lx =
     (let lx1 = advance lx in
      if currentChar lx1 = second
      then (Token_new ty2 text2 (lx_line (advance lx1)) (lx_column lx), advance lx1)
      else (Token_new ty1 text1 (lx_line lx1) (lx_column lx), lx1))"

text \<open>
  \<^verbatim>\<open>&\<close> and \<^verbatim>\<open>|\<close>: doubled they are the logical operators; alone, the \<^verbatim>\<open>switch\<close> is left by
  \<^verbatim>\<open>break\<close> and the code after it advances once more before it returns \<^verbatim>\<open>UNKNOWN\<close>.
\<close>

definition doubledOnly :: "char \<Rightarrow> TokenType \<Rightarrow> string \<Rightarrow> Lexer \<Rightarrow> Token \<times> Lexer" where
  "doubledOnly ch ty2 text2 lx =
     (let lx1 = advance lx in
      if currentChar lx1 = ch
      then (Token_new ty2 text2 (lx_line (advance lx1)) (lx_column lx), advance lx1)
      else (Token_new UNKNOWN [ch] (lx_line (advance lx1)) (lx_column lx), advance lx1))"

definition readOperatorOrDelimiter :: "Lexer \<Rightarrow> Token \<times> Lexer" where
  "readOperatorOrDelimiter lx =
     (let ch = currentChar lx in
      if ch = CHR ''+'' then single PLUS ''+'' lx
      else if ch = CHR ''-'' then single MINUS ''-'' lx
      else if ch = CHR ''*'' then single STAR ''*'' lx
      else if ch = CHR ''/'' then single SLASH ''/'' lx
      else if ch = CHR ''%'' then single PERCENT ''%'' lx
      else if ch = CHR ''='' then maybeDouble CHR ''='' EQUAL ''=='' ASSIGN ''='' lx
      else if ch = CHR ''!'' then maybeDouble CHR ''='' NOT_EQUAL ''!='' TokenType.NOT ''!'' lx
      else if ch = CHR ''<'' then maybeDouble CHR ''='' LESS_EQUAL ''<='' LESS ''<'' lx
      else if ch = CHR ''>'' then maybeDouble CHR ''='' GREATER_EQUAL ''>='' GREATER ''>'' lx
      else if ch = CHR ''&'' then doubledOnly CHR ''&'' TokenType.AND ''&&'' lx
      else if ch = CHR ''|'' then doubledOnly CHR ''|'' TokenType.OR ''||'' lx
      else if ch = CHR ''('' then single LPAREN ''('' lx
      else if ch = CHR '')'' then single RPAREN '')'' lx
      else if ch = CHR ''{'' then single LBRACE ''{'' lx
      else if ch = CHR ''}'' then single RBRACE ''}'' lx
      else if ch = CHR ''['' then single LBRACKET ''['' lx
      else if ch = CHR '']'' then single RBRACKET '']'' lx
      else if ch = CHR '';'' then single SEMICOLON '';'' lx
      else if ch = CHR '','' then single COMMA '','' lx
      else if ch = CHR ''.'' then single DOT ''.'' lx
      else if ch = CHR '':'' then single COLON '':'' lx
      else single UNKNOWN [ch] lx)"

text \<open>\<^verbatim>\<open>while (a comment starts here) { skipComment(); skipWhitespace(); }\<close>\<close>

definition atComment :: "Lexer \<Rightarrow> bool" where
  "atComment lx =
     (currentChar lx = CHR ''/'' \<and> (peekChar lx = CHR ''/'' \<or> peekChar lx = CHR ''*''))"

lemma skipWhitespace_le: "length (lx_rest (skipWhitespace lx)) \<le> length (lx_rest lx)"
proof (induction lx rule: skipWhitespace.induct)
  case (1 lx)
  show ?case
    using 1 advance_le [of lx] by (subst skipWhitespace.simps) (auto intro: le_trans)
qed

lemma skipLineComment_le: "length (lx_rest (skipLineComment lx)) \<le> length (lx_rest lx)"
proof (induction lx rule: skipLineComment.induct)
  case (1 lx)
  show ?case
    using 1 advance_le [of lx] by (subst skipLineComment.simps) (auto intro: le_trans)
qed

lemma skipBlockComment_le: "length (lx_rest (skipBlockComment lx)) \<le> length (lx_rest lx)"
proof (induction lx rule: skipBlockComment.induct)
  case (1 lx)
  show ?case
    using 1 advance_le [of lx] advance_le [of "advance lx"]
    by (subst skipBlockComment.simps) (auto intro: le_trans)
qed

lemma skipComment_shorter:
  "atComment lx \<Longrightarrow> length (lx_rest (skipComment lx)) < length (lx_rest lx)"
proof -
  assume a: "atComment lx"
  then have "currentChar lx \<noteq> CHR 0x00"
    by (auto simp: atComment_def)
  then have "length (lx_rest (advance (advance lx))) < length (lx_rest lx)"
    using advance_shorter [of lx] advance_le [of "advance lx"] by linarith
  with a show ?thesis
    using skipLineComment_le [of "advance (advance lx)"]
          skipBlockComment_le [of "advance (advance lx)"]
    by (auto simp: skipComment_def atComment_def)
qed

function skipComments :: "Lexer \<Rightarrow> Lexer" where
  "skipComments lx =
     (if atComment lx then skipComments (skipWhitespace (skipComment lx)) else lx)"
  by pat_completeness auto
termination
proof (relation "measure (\<lambda>lx. length (lx_rest lx))")
  show "wf (measure (\<lambda>lx. length (lx_rest lx)))"
    by simp
next
  fix lx
  assume "atComment lx"
  then show "(skipWhitespace (skipComment lx), lx) \<in> measure (\<lambda>lx. length (lx_rest lx))"
    using skipComment_shorter [of lx] skipWhitespace_le [of "skipComment lx"] by simp
qed

declare skipComments.simps [simp del]

lemma skipComments_le: "length (lx_rest (skipComments lx)) \<le> length (lx_rest lx)"
proof (induction lx rule: skipComments.induct)
  case (1 lx)
  show ?case
  proof (cases "atComment lx")
    case True
    with 1 skipComment_shorter [of lx] skipWhitespace_le [of "skipComment lx"] show ?thesis
      by (subst skipComments.simps) auto
  next
    case False
    then show ?thesis
      by (subst skipComments.simps) simp
  qed
qed

definition nextToken :: "Lexer \<Rightarrow> Token \<times> Lexer" where
  "nextToken lx0 =
     (let lx = skipComments (skipWhitespace lx0) in
      if currentChar lx = CHR 0x00
      then (Token_new END_OF_FILE [] (lx_line lx) (lx_column lx), lx)
      else if currentChar lx = CHR 0x0A
      then (Token_new NEWLINE [CHR 0x0A] (lx_line (advance lx) - 1) (lx_column lx), advance lx)
      else if isdigit (currentChar lx) then readNumber lx
      else if currentChar lx = CHR 0x22 \<or> currentChar lx = CHR 0x27 then readString lx
      else if isalpha (currentChar lx) \<or> currentChar lx = CHR ''_''
      then readIdentifierOrKeyword lx
      else readOperatorOrDelimiter lx)"

subsection \<open>Every token but the last consumes input\<close>

lemma readNumberLoop_le:
  "length (lx_rest (snd (readNumberLoop number lx))) \<le> length (lx_rest lx)"
proof (induction number lx rule: readNumberLoop.induct)
  case (1 number lx)
  show ?case
    using 1 advance_le [of lx] by (subst readNumberLoop.simps) (auto intro: le_trans)
qed

lemma readIdentifierLoop_le:
  "length (lx_rest (snd (readIdentifierLoop ident lx))) \<le> length (lx_rest lx)"
proof (induction ident lx rule: readIdentifierLoop.induct)
  case (1 ident lx)
  show ?case
    using 1 advance_le [of lx] by (subst readIdentifierLoop.simps) (auto intro: le_trans)
qed

lemma readStringLoop_le:
  "length (lx_rest (snd (readStringLoop quote str lx))) \<le> length (lx_rest lx)"
proof (induction quote str lx rule: readStringLoop.induct)
  case (1 quote str lx)
  show ?case
    using 1 advance_le [of lx] advance_le [of "advance lx"]
    by (subst readStringLoop.simps) (auto intro: le_trans)
qed

lemma readNumber_shorter:
  assumes "currentChar lx \<noteq> CHR 0x00" and "isdigit (currentChar lx)"
  shows "length (lx_rest (snd (readNumber lx))) < length (lx_rest lx)"
proof -
  obtain number lx1 where r: "readNumberLoop [currentChar lx] (advance lx) = (number, lx1)"
    by (cases "readNumberLoop [currentChar lx] (advance lx)")
  have "readNumberLoop [] lx = readNumberLoop [currentChar lx] (advance lx)"
    using assms by (subst readNumberLoop.simps) simp
  moreover have "length (lx_rest lx1) < length (lx_rest lx)"
    using readNumberLoop_le [of "[currentChar lx]" "advance lx"] r advance_shorter [OF assms(1)]
    by simp
  ultimately show ?thesis
    using r by (simp add: readNumber_def)
qed

lemma readIdentifierOrKeyword_shorter:
  assumes "currentChar lx \<noteq> CHR 0x00" and "isalpha (currentChar lx) \<or> currentChar lx = CHR ''_''"
  shows "length (lx_rest (snd (readIdentifierOrKeyword lx))) < length (lx_rest lx)"
proof -
  obtain ident lx1 where r: "readIdentifierLoop [currentChar lx] (advance lx) = (ident, lx1)"
    by (cases "readIdentifierLoop [currentChar lx] (advance lx)")
  have "readIdentifierLoop [] lx = readIdentifierLoop [currentChar lx] (advance lx)"
    using assms by (subst readIdentifierLoop.simps) (auto simp: isalnum_def)
  moreover have "length (lx_rest lx1) < length (lx_rest lx)"
    using readIdentifierLoop_le [of "[currentChar lx]" "advance lx"] r
          advance_shorter [OF assms(1)]
    by simp
  ultimately show ?thesis
    using r by (simp add: readIdentifierOrKeyword_def Let_def split: option.splits)
qed

lemma readString_shorter:
  assumes "currentChar lx \<noteq> CHR 0x00"
  shows "length (lx_rest (snd (readString lx))) < length (lx_rest lx)"
proof -
  obtain str lx1 where r: "readStringLoop (currentChar lx) [] (advance lx) = (str, lx1)"
    by (cases "readStringLoop (currentChar lx) [] (advance lx)")
  have "length (lx_rest lx1) < length (lx_rest lx)"
    using readStringLoop_le [of "currentChar lx" "[]" "advance lx"] r
          advance_shorter [OF assms]
    by simp
  then show ?thesis
    using r advance_le [of lx1] by (auto simp: readString_def Let_def)
qed

lemma readOperatorOrDelimiter_shorter:
  assumes "currentChar lx \<noteq> CHR 0x00"
  shows "length (lx_rest (snd (readOperatorOrDelimiter lx))) < length (lx_rest lx)"
proof -
  have a: "length (lx_rest (advance lx)) < length (lx_rest lx)"
    by (rule advance_shorter [OF assms])
  have b: "length (lx_rest (advance (advance lx))) < length (lx_rest lx)"
    using a advance_le [of "advance lx"] by linarith
  show ?thesis
    using a b
    by (simp add: readOperatorOrDelimiter_def single_def maybeDouble_def doubledOnly_def Let_def)
qed

lemma nextToken_shorter:
  assumes "nextToken lx = (token, lx')" and "tok_type token \<noteq> END_OF_FILE"
  shows "length (lx_rest lx') < length (lx_rest lx)"
proof -
  define l where "l = skipComments (skipWhitespace lx)"
  have le: "length (lx_rest l) \<le> length (lx_rest lx)"
    unfolding l_def
    using skipComments_le [of "skipWhitespace lx"] skipWhitespace_le [of lx] by linarith
  have nz: "currentChar l \<noteq> CHR 0x00"
    using assms by (auto simp: nextToken_def Let_def l_def Token_new_def)
  have "length (lx_rest lx') < length (lx_rest l)"
    using assms(1) nz advance_shorter [OF nz] readNumber_shorter [OF nz]
      readString_shorter [OF nz] readIdentifierOrKeyword_shorter [OF nz]
      readOperatorOrDelimiter_shorter [OF nz]
    by (auto simp: nextToken_def Let_def l_def [symmetric] split: if_splits)
  with le show ?thesis by linarith
qed

function tokenizeLoop :: "Lexer \<Rightarrow> Token list" where
  "tokenizeLoop lx =
     (case nextToken lx of (token, lx') \<Rightarrow>
        if tok_type token \<noteq> END_OF_FILE then token # tokenizeLoop lx' else [token])"
  by pat_completeness auto
termination
  by (relation "measure (\<lambda>lx. length (lx_rest lx))")
     (auto dest: nextToken_shorter [OF sym])

declare tokenizeLoop.simps [simp del]

definition tokenize :: "string \<Rightarrow> Token list" where
  "tokenize source = tokenizeLoop (Lexer_new source)"

section \<open>Parser (parser.cpp)\<close>

text \<open>
  The parser is a set of mutually recursive member functions over the token vector and the
  index \<^verbatim>\<open>current\<close>.  In the model each of them takes the tokens and the index and returns
  the node with the new index, or the exception it throws.  The recursion is on fuel, one
  unit for each call: \<open>None\<close> says that the fuel ran out.
\<close>

type_synonym 'a parsed = "(exn + 'a \<times> nat) option"

definition ok :: "'a \<Rightarrow> nat \<Rightarrow> 'a parsed" where
  "ok a cur = Some (Inr (a, cur))"

definition fail :: "string \<Rightarrow> 'a parsed" where
  "fail message = Some (Inl (runtime_error message))"

definition andThen :: "'a parsed \<Rightarrow> ('a \<Rightarrow> nat \<Rightarrow> 'b parsed) \<Rightarrow> 'b parsed" where
  "andThen p k =
     (case p of
        None \<Rightarrow> None
      | Some (Inl e) \<Rightarrow> Some (Inl e)
      | Some (Inr (a, cur)) \<Rightarrow> k a cur)"

definition currentToken :: "Token list \<Rightarrow> nat \<Rightarrow> Token" where
  "currentToken toks cur = (if cur < length toks then toks ! cur else Token_new END_OF_FILE [] 0 0)"

definition peekToken :: "Token list \<Rightarrow> nat \<Rightarrow> Token" where
  "peekToken toks cur =
     (if cur + 1 < length toks then toks ! (cur + 1) else Token_new END_OF_FILE [] 0 0)"

definition Parser_advance :: "Token list \<Rightarrow> nat \<Rightarrow> nat" where
  "Parser_advance toks cur = (if cur < length toks then cur + 1 else cur)"

definition check :: "Token list \<Rightarrow> nat \<Rightarrow> TokenType \<Rightarrow> bool" where
  "check toks cur ty = (tok_type (currentToken toks cur) = ty)"

text \<open>\<^verbatim>\<open>consume(type, message)\<close>, followed by the rest of the function.\<close>

definition consume ::
  "Token list \<Rightarrow> nat \<Rightarrow> TokenType \<Rightarrow> string \<Rightarrow> (nat \<Rightarrow> 'a parsed) \<Rightarrow> 'a parsed" where
  "consume toks cur ty message k =
     (if check toks cur ty then k (Parser_advance toks cur) else fail message)"

definition isType :: "TokenType \<Rightarrow> bool" where
  "isType ty =
     (ty = TokenType.INT \<or> ty = FLOAT_KW \<or> ty = BOOL \<or> ty = VOID \<or> ty = IDENTIFIER)"

text \<open>\<^verbatim>\<open>tokenTypeToString(currentToken().type)\<close>\<close>

definition tokenTypeToString :: "Token list \<Rightarrow> nat \<Rightarrow> string" where
  "tokenTypeToString toks cur =
     (let ty = tok_type (currentToken toks cur) in
      if ty = TokenType.INT then ''int''
      else if ty = FLOAT_KW then ''float''
      else if ty = BOOL then ''bool''
      else if ty = VOID then ''void''
      else if ty = IDENTIFIER then tok_value (currentToken toks cur)
      else ''unknown'')"

text \<open>The built-in names that \<^verbatim>\<open>parsePrimary\<close> turns into a \<^verbatim>\<open>FunctionCall\<close>.\<close>

definition builtinCall :: "TokenType \<Rightarrow> string option" where
  "builtinCall ty =
     (if ty = TokenType.SCREEN then Some ''screen''
      else if ty = TokenType.CLEAR_SCREEN then Some ''clearScreen''
      else if ty = TokenType.DRAW_PIXEL then Some ''drawPixel''
      else if ty = TokenType.DRAW_RECT then Some ''drawRect''
      else if ty = TokenType.DRAW_LINE then Some ''drawLine''
      else if ty = TokenType.DRAW_CIRCLE then Some ''drawCircle''
      else if ty = DISPLAY then Some ''display''
      else if ty = QUIT then Some ''quit''
      else if ty = IS_KEY_DOWN then Some ''isKeyDown''
      else if ty = UPDATE_INPUT then Some ''updateInput''
      else None)"

definition quoted :: "string \<Rightarrow> string" where
  "quoted s = apostrophe @ s @ apostrophe"

text \<open>
  The expression functions, one constructor for each: \<open>P_Comma\<close> is \<^verbatim>\<open>parseComma\<close>, and
  \<open>P_CommaLoop left\<close> is its \<^verbatim>\<open>while\<close> loop with the value of \<^verbatim>\<open>left\<close> so far.
\<close>

datatype expression_rule =
    P_Expression
  | P_Comma | P_CommaLoop expr
  | P_Assignment
  | P_LogicalOr | P_LogicalOrLoop expr
  | P_LogicalAnd | P_LogicalAndLoop expr
  | P_Equality | P_EqualityLoop expr
  | P_Comparison | P_ComparisonLoop expr
  | P_Additive | P_AdditiveLoop expr
  | P_Multiplicative | P_MultiplicativeLoop expr
  | P_Unary
  | P_Postfix | P_PostfixLoop expr
  | P_Primary

fun parseRule :: "nat \<Rightarrow> expression_rule \<Rightarrow> Token list \<Rightarrow> nat \<Rightarrow> expr parsed"
  and parseArgumentList :: "nat \<Rightarrow> Token list \<Rightarrow> expr list \<Rightarrow> nat \<Rightarrow> expr list parsed" where
  "parseRule 0 rule toks cur = None"
| "parseRule (Suc n) P_Expression toks cur = parseRule n P_Comma toks cur"
| "parseRule (Suc n) P_Comma toks cur =
     andThen (parseRule n P_Assignment toks cur)
       (\<lambda>left cur. parseRule n (P_CommaLoop left) toks cur)"
| "parseRule (Suc n) (P_CommaLoop left) toks cur =
     (if check toks cur COMMA then
        andThen (parseRule n P_Assignment toks (Parser_advance toks cur))
          (\<lambda>right cur'. parseRule n (P_CommaLoop (BinaryOp left COMMA right)) toks cur')
      else ok left cur)"
| "parseRule (Suc n) P_Assignment toks cur =
     andThen (parseRule n P_LogicalOr toks cur)
       (\<lambda>left cur.
          if check toks cur ASSIGN then
            (case left of
               Identifier name \<Rightarrow>
                 andThen (parseRule n P_Assignment toks (Parser_advance toks cur))
                   (\<lambda>v cur'. ok (Assignment name v) cur')
             | _ \<Rightarrow> fail ''Invalid assignment target'')
          else ok left cur)"
| "parseRule (Suc n) P_LogicalOr toks cur =
     andThen (parseRule n P_LogicalAnd toks cur)
       (\<lambda>left cur. parseRule n (P_LogicalOrLoop left) toks cur)"
| "parseRule (Suc n) (P_LogicalOrLoop left) toks cur =
     (if check toks cur TokenType.OR then
        andThen (parseRule n P_LogicalAnd toks (Parser_advance toks cur))
          (\<lambda>right cur'.
             parseRule n (P_LogicalOrLoop (BinaryOp left TokenType.OR right)) toks cur')
      else ok left cur)"
| "parseRule (Suc n) P_LogicalAnd toks cur =
     andThen (parseRule n P_Equality toks cur)
       (\<lambda>left cur. parseRule n (P_LogicalAndLoop left) toks cur)"
| "parseRule (Suc n) (P_LogicalAndLoop left) toks cur =
     (if check toks cur TokenType.AND then
        andThen (parseRule n P_Equality toks (Parser_advance toks cur))
          (\<lambda>right cur'.
             parseRule n (P_LogicalAndLoop (BinaryOp left TokenType.AND right)) toks cur')
      else ok left cur)"
| "parseRule (Suc n) P_Equality toks cur =
     andThen (parseRule n P_Comparison toks cur)
       (\<lambda>left cur. parseRule n (P_EqualityLoop left) toks cur)"
| "parseRule (Suc n) (P_EqualityLoop left) toks cur =
     (if check toks cur EQUAL \<or> check toks cur NOT_EQUAL then
        (let op = tok_type (currentToken toks cur) in
         andThen (parseRule n P_Comparison toks (Parser_advance toks cur))
           (\<lambda>right cur'. parseRule n (P_EqualityLoop (BinaryOp left op right)) toks cur'))
      else ok left cur)"
| "parseRule (Suc n) P_Comparison toks cur =
     andThen (parseRule n P_Additive toks cur)
       (\<lambda>left cur. parseRule n (P_ComparisonLoop left) toks cur)"
| "parseRule (Suc n) (P_ComparisonLoop left) toks cur =
     (if check toks cur LESS \<or> check toks cur LESS_EQUAL \<or> check toks cur GREATER
         \<or> check toks cur GREATER_EQUAL then
        (let op = tok_type (currentToken toks cur) in
         andThen (parseRule n P_Additive toks (Parser_advance toks cur))
           (\<lambda>right cur'. parseRule n (P_ComparisonLoop (BinaryOp left op right)) toks cur'))
      else ok left cur)"
| "parseRule (Suc n) P_Additive toks cur =
     andThen (parseRule n P_Multiplicative toks cur)
       (\<lambda>left cur. parseRule n (P_AdditiveLoop left) toks cur)"
| "parseRule (Suc n) (P_AdditiveLoop left) toks cur =
     (if check toks cur PLUS \<or> check toks cur MINUS then
        (let op = tok_type (currentToken toks cur) in
         andThen (parseRule n P_Multiplicative toks (Parser_advance toks cur))
           (\<lambda>right cur'. parseRule n (P_AdditiveLoop (BinaryOp left op right)) toks cur'))
      else ok left cur)"
| "parseRule (Suc n) P_Multiplicative toks cur =
     andThen (parseRule n P_Unary toks cur)
       (\<lambda>left cur. parseRule n (P_MultiplicativeLoop left) toks cur)"
| "parseRule (Suc n) (P_MultiplicativeLoop left) toks cur =
     (if check toks cur STAR \<or> check toks cur SLASH \<or> check toks cur PERCENT then
        (let op = tok_type (currentToken toks cur) in
         andThen (parseRule n P_Unary toks (Parser_advance toks cur))
           (\<lambda>right cur'. parseRule n (P_MultiplicativeLoop (BinaryOp left op right)) toks cur'))
      else ok left cur)"
| "parseRule (Suc n) P_Unary toks cur =
     (if check toks cur TokenType.NOT \<or> check toks cur MINUS then
        (let op = tok_type (currentToken toks cur) in
         andThen (parseRule n P_Unary toks (Parser_advance toks cur))
           (\<lambda>operand cur'. ok (UnaryOp op operand) cur'))
      else parseRule n P_Postfix toks cur)"
| "parseRule (Suc n) P_Postfix toks cur =
     andThen (parseRule n P_Primary toks cur)
       (\<lambda>e cur. parseRule n (P_PostfixLoop e) toks cur)"
| "parseRule (Suc n) (P_PostfixLoop e) toks cur =
     (if check toks cur LPAREN then
        andThen
          (if \<not> check toks (Parser_advance toks cur) RPAREN
           then parseArgumentList n toks [] (Parser_advance toks cur)
           else ok [] (Parser_advance toks cur))
          (\<lambda>args cur1.
             consume toks cur1 RPAREN (''Expected '' @ quoted '')'' @ '' after arguments'')
               (\<lambda>cur2.
                  case e of
                    Identifier name \<Rightarrow> parseRule n (P_PostfixLoop (FunctionCall name args)) toks cur2
                  | _ \<Rightarrow> fail ''Invalid function call''))
      else if check toks cur LBRACKET then
        andThen (parseRule n P_Expression toks (Parser_advance toks cur))
          (\<lambda>index cur1.
             consume toks cur1 RBRACKET (''Expected '' @ quoted '']'' @ '' after index'')
               (\<lambda>cur2. parseRule n (P_PostfixLoop (ArrayAccess e index)) toks cur2))
      else ok e cur)"
| "parseRule (Suc n) P_Primary toks cur =
     (let tok = currentToken toks cur; next = Parser_advance toks cur in
      if check toks cur TRUE_LIT then ok (Literal TRUE_LIT ''1'') next
      else if check toks cur FALSE_LIT then ok (Literal FALSE_LIT ''0'') next
      else if check toks cur INTEGER \<or> check toks cur FLOAT \<or> check toks cur STRING
      then ok (Literal (tok_type tok) (tok_value tok)) next
      else if check toks cur IDENTIFIER then ok (Identifier (tok_value tok)) next
      else if check toks cur TokenType.INPUT \<or> check toks cur TokenType.KEY_PRESSED then
        (let node = (if check toks cur TokenType.INPUT then InputCall else KeyPressedCall) in
         if check toks next LPAREN then
           (let cur1 = Parser_advance toks next in
            if \<not> check toks cur1 RPAREN then
              andThen (parseRule n P_Expression toks cur1)
                (\<lambda>prompt cur2.
                   consume toks cur2 RPAREN (''Expected '' @ quoted '')'')
                     (\<lambda>cur3. ok (node (Some prompt)) cur3))
            else consume toks cur1 RPAREN (''Expected '' @ quoted '')'')
                   (\<lambda>cur3. ok (node None) cur3))
         else ok (node None) next)
      else
        (case builtinCall (tok_type tok) of
           Some name \<Rightarrow>
             if check toks next LPAREN then
               andThen
                 (if \<not> check toks (Parser_advance toks next) RPAREN
                  then parseArgumentList n toks [] (Parser_advance toks next)
                  else ok [] (Parser_advance toks next))
                 (\<lambda>args cur1.
                    consume toks cur1 RPAREN (''Expected '' @ quoted '')'')
                      (\<lambda>cur2. ok (FunctionCall name args) cur2))
             else ok (FunctionCall name []) next
         | None \<Rightarrow>
             if check toks cur LPAREN then
               andThen (parseRule n P_Expression toks next)
                 (\<lambda>e cur1.
                    consume toks cur1 RPAREN (''Expected '' @ quoted '')'')
                      (\<lambda>cur2. ok e cur2))
             else Some (Inl (unexpected_token (tok_value tok) (tok_type tok)))))"
| "parseArgumentList 0 toks args cur = None"
| "parseArgumentList (Suc n) toks args cur =
     andThen (parseRule n P_Assignment toks cur)
       (\<lambda>arg cur'.
          if check toks cur' COMMA
          then parseArgumentList n toks (args @ [arg]) (Parser_advance toks cur')
          else ok (args @ [arg]) cur')"

definition parseExpression :: "nat \<Rightarrow> Token list \<Rightarrow> nat \<Rightarrow> expr parsed" where
  "parseExpression n toks cur = parseRule n P_Expression toks cur"

text \<open>\<^verbatim>\<open>while (check(TokenType::NEWLINE)) advance();\<close>\<close>

function skipNewlines :: "Token list \<Rightarrow> nat \<Rightarrow> nat" where
  "skipNewlines toks cur =
     (if check toks cur NEWLINE then skipNewlines toks (Parser_advance toks cur) else cur)"
  by pat_completeness auto
termination
  by (relation "measure (\<lambda>(toks, cur). length toks - cur)")
     (auto simp: check_def currentToken_def Parser_advance_def Token_new_def split: if_splits)

declare skipNewlines.simps [simp del]

definition parseReturnStatement :: "nat \<Rightarrow> Token list \<Rightarrow> nat \<Rightarrow> stmt parsed" where
  "parseReturnStatement n toks cur =
     consume toks cur RETURN (''Expected '' @ quoted ''return'')
       (\<lambda>cur1.
          if \<not> check toks cur1 SEMICOLON then
            andThen (parseExpression n toks cur1)
              (\<lambda>e cur2.
                 consume toks cur2 SEMICOLON (''Expected '' @ quoted '';'' @ '' after return'')
                   (\<lambda>cur3. ok (ReturnStatement (Some e)) cur3))
          else consume toks cur1 SEMICOLON (''Expected '' @ quoted '';'' @ '' after return'')
                 (\<lambda>cur3. ok (ReturnStatement None) cur3))"

text \<open>
  A declaration up to, and without, its final semicolon: the text that
  \<^verbatim>\<open>parseVariableDeclaration\<close> and the init part of \<^verbatim>\<open>parseForStatement\<close> have in common.
\<close>

definition parseDeclaration :: "nat \<Rightarrow> Token list \<Rightarrow> nat \<Rightarrow> stmt parsed" where
  "parseDeclaration n toks cur =
     (if check toks cur LET then
        consume toks cur LET (''Expected '' @ quoted ''let'')
          (\<lambda>cur1.
             if \<not> check toks cur1 IDENTIFIER then fail ''Expected variable name''
             else
               (let name = tok_value (currentToken toks cur1) in
                consume toks (Parser_advance toks cur1) COLON
                  (''Expected '' @ quoted '':'' @ '' after variable name'')
                  (\<lambda>cur2.
                     if \<not> isType (tok_type (currentToken toks cur2))
                     then fail (''Expected type after '' @ quoted '':'')
                     else
                       (let ty = tokenTypeToString toks cur2 in
                        consume toks (Parser_advance toks cur2) ASSIGN
                          (''Expected '' @ quoted ''='' @ '' after type'')
                          (\<lambda>cur3.
                             andThen (parseExpression n toks cur3)
                               (\<lambda>initializer cur4.
                                  ok (VariableDecl name ty (Some initializer)) cur4))))))
      else if \<not> isType (tok_type (currentToken toks cur))
      then fail ''Expected type for variable declaration''
      else
        (let ty = tokenTypeToString toks cur; cur1 = Parser_advance toks cur in
         if \<not> check toks cur1 IDENTIFIER then fail ''Expected variable name''
         else
           (let name = tok_value (currentToken toks cur1); cur2 = Parser_advance toks cur1 in
            if check toks cur2 ASSIGN then
              andThen (parseExpression n toks (Parser_advance toks cur2))
                (\<lambda>initializer cur3. ok (VariableDecl name ty (Some initializer)) cur3)
            else ok (VariableDecl name ty None) cur2)))"

definition parseVariableDeclaration :: "nat \<Rightarrow> Token list \<Rightarrow> nat \<Rightarrow> stmt parsed" where
  "parseVariableDeclaration n toks cur =
     andThen (parseDeclaration n toks cur)
       (\<lambda>decl cur1.
          consume toks cur1 SEMICOLON (''Expected '' @ quoted '';'' @ '' after variable declaration'')
            (\<lambda>cur2. ok decl cur2))"

definition parsePrintStatement :: "nat \<Rightarrow> Token list \<Rightarrow> nat \<Rightarrow> stmt parsed" where
  "parsePrintStatement n toks cur =
     consume toks cur TokenType.PRINT (''Expected '' @ quoted ''print'')
       (\<lambda>cur1.
          consume toks cur1 LPAREN (''Expected '' @ quoted ''('' @ '' after '' @ quoted ''print'')
            (\<lambda>cur2.
               andThen (parseExpression n toks cur2)
                 (\<lambda>e cur3.
                    consume toks cur3 RPAREN (''Expected '' @ quoted '')'')
                      (\<lambda>cur4.
                         consume toks cur4 SEMICOLON
                           (''Expected '' @ quoted '';'' @ '' after print statement'')
                           (\<lambda>cur5. ok (PrintStatement e) cur5)))))"

definition parseExpressionStatement :: "nat \<Rightarrow> Token list \<Rightarrow> nat \<Rightarrow> stmt parsed" where
  "parseExpressionStatement n toks cur =
     andThen (parseExpression n toks cur)
       (\<lambda>e cur1.
          consume toks cur1 SEMICOLON (''Expected '' @ quoted '';'' @ '' after expression'')
            (\<lambda>cur2. ok (ExpressionStatement e) cur2))"

text \<open>The init part of a for header, which leaves the semicolon to the header.\<close>

definition parseForInit :: "nat \<Rightarrow> Token list \<Rightarrow> nat \<Rightarrow> stmt option parsed" where
  "parseForInit n toks cur =
     (if \<not> check toks cur SEMICOLON then
        andThen
          (if check toks cur LET \<or> isType (tok_type (currentToken toks cur))
           then parseDeclaration n toks cur
           else parseExpressionStatement n toks cur)
          (\<lambda>init cur1. ok (Some init) cur1)
      else ok None cur)"

definition parseOptionalExpression ::
  "nat \<Rightarrow> Token list \<Rightarrow> TokenType \<Rightarrow> nat \<Rightarrow> expr option parsed" where
  "parseOptionalExpression n toks closing cur =
     (if \<not> check toks cur closing
      then andThen (parseExpression n toks cur) (\<lambda>e cur1. ok (Some e) cur1)
      else ok None cur)"

definition looksLikeType :: "Token list \<Rightarrow> nat \<Rightarrow> bool" where
  "looksLikeType toks cur =
     (if tok_type (currentToken toks cur) = IDENTIFIER
      then tok_type (peekToken toks cur) = IDENTIFIER
      else isType (tok_type (currentToken toks cur)))"

datatype statement_rule =
    P_Statement | P_BlockStatement | P_IfStatement | P_WhileStatement | P_ForStatement

fun parseStatementRule :: "nat \<Rightarrow> statement_rule \<Rightarrow> Token list \<Rightarrow> nat \<Rightarrow> stmt parsed"
  and parseBlockLoop :: "nat \<Rightarrow> Token list \<Rightarrow> stmt list \<Rightarrow> nat \<Rightarrow> stmt list parsed" where
  "parseStatementRule 0 rule toks cur = None"
| "parseStatementRule (Suc n) P_Statement toks cur =
     (if check toks cur LBRACE then parseStatementRule n P_BlockStatement toks cur
      else if check toks cur RETURN then parseReturnStatement n toks cur
      else if check toks cur IF then parseStatementRule n P_IfStatement toks cur
      else if check toks cur WHILE then parseStatementRule n P_WhileStatement toks cur
      else if check toks cur FOR then parseStatementRule n P_ForStatement toks cur
      else if looksLikeType toks cur \<or> check toks cur LET then parseVariableDeclaration n toks cur
      else if check toks cur TokenType.PRINT then parsePrintStatement n toks cur
      else parseExpressionStatement n toks cur)"
| "parseStatementRule (Suc n) P_BlockStatement toks cur =
     consume toks cur LBRACE (''Expected '' @ quoted ''{'')
       (\<lambda>cur1.
          andThen (parseBlockLoop n toks [] cur1)
            (\<lambda>statements cur2.
               consume toks cur2 RBRACE (''Expected '' @ quoted ''}'')
                 (\<lambda>cur3. ok (BlockStatement statements) cur3)))"
| "parseStatementRule (Suc n) P_IfStatement toks cur =
     (if check toks cur IF \<or> check toks cur ELIF then
        consume toks (Parser_advance toks cur) LPAREN
          (''Expected '' @ quoted ''('' @ '' after condition'')
          (\<lambda>cur1.
             andThen (parseExpression n toks cur1)
               (\<lambda>condition cur2.
                  consume toks cur2 RPAREN (''Expected '' @ quoted '')'' @ '' after condition'')
                    (\<lambda>cur3.
                       andThen (parseStatementRule n P_Statement toks cur3)
                         (\<lambda>thenBranch cur4.
                            if check toks cur4 ELIF then
                              andThen (parseStatementRule n P_IfStatement toks cur4)
                                (\<lambda>elseBranch cur5.
                                   ok (IfStatement condition thenBranch (Some elseBranch)) cur5)
                            else if check toks cur4 ELSE then
                              andThen
                                (parseStatementRule n P_Statement toks (Parser_advance toks cur4))
                                (\<lambda>elseBranch cur5.
                                   ok (IfStatement condition thenBranch (Some elseBranch)) cur5)
                            else ok (IfStatement condition thenBranch None) cur4))))
      else fail (''Expected '' @ quoted ''if'' @ '' or '' @ quoted ''elif''))"
| "parseStatementRule (Suc n) P_WhileStatement toks cur =
     consume toks cur WHILE (''Expected '' @ quoted ''while'')
       (\<lambda>cur1.
          consume toks cur1 LPAREN (''Expected '' @ quoted ''('' @ '' after '' @ quoted ''while'')
            (\<lambda>cur2.
               andThen (parseExpression n toks cur2)
                 (\<lambda>condition cur3.
                    consume toks cur3 RPAREN
                      (''Expected '' @ quoted '')'' @ '' after while condition'')
                      (\<lambda>cur4.
                         andThen (parseStatementRule n P_Statement toks cur4)
                           (\<lambda>body cur5. ok (WhileStatement condition body) cur5)))))"
| "parseStatementRule (Suc n) P_ForStatement toks cur =
     consume toks cur FOR (''Expected '' @ quoted ''for'')
       (\<lambda>cur1.
          consume toks cur1 LPAREN (''Expected '' @ quoted ''('' @ '' after '' @ quoted ''for'')
            (\<lambda>cur2.
               andThen (parseForInit n toks cur2)
                 (\<lambda>init cur3.
                    consume toks cur3 SEMICOLON (''Expected '' @ quoted '';'' @ '' after for-init'')
                      (\<lambda>cur4.
                         andThen (parseOptionalExpression n toks SEMICOLON cur4)
                           (\<lambda>condition cur5.
                              consume toks cur5 SEMICOLON
                                (''Expected '' @ quoted '';'' @ '' after for-condition'')
                                (\<lambda>cur6.
                                   andThen (parseOptionalExpression n toks RPAREN cur6)
                                     (\<lambda>increment cur7.
                                        consume toks cur7 RPAREN
                                          (''Expected '' @ quoted '')'' @ '' after for clauses'')
                                          (\<lambda>cur8.
                                             andThen (parseStatementRule n P_Statement toks cur8)
                                               (\<lambda>body cur9.
                                                  ok (ForStatement init condition increment body)
                                                    cur9)))))))))"
| "parseBlockLoop 0 toks statements cur = None"
| "parseBlockLoop (Suc n) toks statements cur =
     (if \<not> check toks cur RBRACE \<and> \<not> check toks cur END_OF_FILE then
        (let cur1 = skipNewlines toks cur in
         if check toks cur1 RBRACE \<or> check toks cur1 END_OF_FILE then ok statements cur1
         else andThen (parseStatementRule n P_Statement toks cur1)
                (\<lambda>s cur2. parseBlockLoop n toks (statements @ [s]) cur2))
      else ok statements cur)"

definition parseBlockStatement :: "nat \<Rightarrow> Token list \<Rightarrow> nat \<Rightarrow> stmt parsed" where
  "parseBlockStatement n toks cur = parseStatementRule n P_BlockStatement toks cur"

fun parseParameters ::
  "nat \<Rightarrow> Token list \<Rightarrow> (string \<times> string) list \<Rightarrow> nat \<Rightarrow> (string \<times> string) list parsed" where
  "parseParameters 0 toks params cur = None"
| "parseParameters (Suc n) toks params cur =
     (let paramType = tokenTypeToString toks cur; cur1 = Parser_advance toks cur in
      if \<not> check toks cur1 IDENTIFIER then fail ''Expected parameter name''
      else
        (let paramName = tok_value (currentToken toks cur1); cur2 = Parser_advance toks cur1 in
         if check toks cur2 COMMA
         then parseParameters n toks (params @ [(paramType, paramName)]) (Parser_advance toks cur2)
         else ok (params @ [(paramType, paramName)]) cur2))"

definition parseFunction :: "nat \<Rightarrow> Token list \<Rightarrow> nat \<Rightarrow> FunctionDecl parsed" where
  "parseFunction n toks cur =
     (let typed = (isType (tok_type (currentToken toks cur)) \<and>
                   \<not> (tok_type (currentToken toks cur) = IDENTIFIER \<and>
                      tok_type (peekToken toks cur) = LPAREN));
          returnType = (if typed then tokenTypeToString toks cur else ''void'');
          cur1 = (if typed then Parser_advance toks cur else cur)
      in if \<not> check toks cur1 IDENTIFIER then fail ''Expected function name''
         else
           (let name = tok_value (currentToken toks cur1) in
            consume toks (Parser_advance toks cur1) LPAREN (''Expected '' @ quoted ''('')
              (\<lambda>cur2.
                 andThen
                   (if \<not> check toks cur2 RPAREN then parseParameters n toks [] cur2
                    else ok [] cur2)
                   (\<lambda>params cur3.
                      consume toks cur3 RPAREN (''Expected '' @ quoted '')'')
                        (\<lambda>cur4.
                           andThen (parseBlockStatement n toks cur4)
                             (\<lambda>body cur5.
                                ok \<lparr>fd_returnType = returnType, fd_name = name,
                                    fd_parameters = params, fd_body = body\<rparr> cur5))))))"

fun parseLoop :: "nat \<Rightarrow> Token list \<Rightarrow> Program \<Rightarrow> nat \<Rightarrow> Program parsed" where
  "parseLoop 0 toks functions cur = None"
| "parseLoop (Suc n) toks functions cur =
     (if \<not> check toks cur END_OF_FILE then
        (let cur1 = skipNewlines toks cur in
         if check toks cur1 END_OF_FILE then ok functions cur1
         else andThen (parseFunction n toks cur1)
                (\<lambda>func cur2. parseLoop n toks (functions @ [func]) cur2))
      else ok functions cur)"

text \<open>\<^verbatim>\<open>Parser(tokens).parse()\<close>\<close>

definition parse :: "nat \<Rightarrow> Token list \<Rightarrow> (exn + Program) option" where
  "parse n toks =
     (case parseLoop n toks [] 0 of
        None \<Rightarrow> None
      | Some (Inl e) \<Rightarrow> Some (Inl e)
      | Some (Inr (program, cur)) \<Rightarrow> Some (Inr program))"

section \<open>The executable (\<^verbatim>\<open>main\<close>)\<close>

text \<open>
  What the process leaves behind: its standard output, the exception whose message \<^verbatim>\<open>main\<close>
  printed after \<^verbatim>\<open>Error: \<close> (if any), and its exit code.
\<close>

record ProcessResult =
  pr_stdout :: string
  pr_error :: "exn option"
  pr_exit :: int

definition Interp_new :: "string list \<Rightarrow> string \<Rightarrow> bool list \<Rightarrow> Interp" where
  "Interp_new lines keys closes =
     \<lparr>temps = (\<lambda>k. VInt 0), ip = 0, g_graphics = False, cout = [], interp_cerr = [],
      in_lines = lines, in_keys = keys, in_shouldClose = closes\<rparr>"

text \<open>
  \<^verbatim>\<open>main\<close> on a source text: tokenize, parse, generate, interpret; an exception on the way
  is caught, reported and turned into exit code 1.  The semantic analyzer is not called.
  \<open>None\<close>: the fuel of the parser or of the interpreter ran out, or the interpreter met
  undefined behaviour.
\<close>

definition zpp_main :: "nat \<Rightarrow> Platform \<Rightarrow> Interp \<Rightarrow> string \<Rightarrow> ProcessResult option" where
  "zpp_main n pf st0 source =
     (case parse n (tokenize source) of
        None \<Rightarrow> None
      | Some (Inl e) \<Rightarrow> Some \<lparr>pr_stdout = cout st0, pr_error = Some e, pr_exit = 1\<rparr>
      | Some (Inr program) \<Rightarrow>
          (case interpretIR n pf (generate program) st0 of
             Some (Finished st) \<Rightarrow> Some \<lparr>pr_stdout = cout st, pr_error = None, pr_exit = 0\<rparr>
           | Some (Thrown e st) \<Rightarrow> Some \<lparr>pr_stdout = cout st, pr_error = Some e, pr_exit = 1\<rparr>
           | Some (Exited c st) \<Rightarrow> Some \<lparr>pr_stdout = cout st, pr_error = None, pr_exit = c\<rparr>
           | _ \<Rightarrow> None))"

subsection \<open>Decimal text and \<^verbatim>\<open>std::stoi\<close>\<close>

lemma of_char_digit_char: "d < 10 \<Longrightarrow> (of_char (digit_char d) :: nat) = 48 + d"
  by (simp add: digit_char_def)

lemma isdigit_digit_char: "d < 10 \<Longrightarrow> isdigit (digit_char d)"
  by (simp add: isdigit_def of_char_digit_char)

lemma nat_to_string_digits: "c \<in> set (nat_to_string n) \<Longrightarrow> isdigit c"
proof (induction n arbitrary: c rule: nat_to_string.induct)
  case (1 n)
  show ?case
  proof (cases "n < 10")
    case True
    with 1(2) show ?thesis
      by (subst (asm) nat_to_string.simps) (simp add: isdigit_digit_char)
  next
    case False
    with 1 show ?thesis
      by (subst (asm) (2) nat_to_string.simps) (auto simp: isdigit_digit_char)
  qed
qed


lemma digits_value_snoc:
  "digits_value acc (cs @ [c]) = digits_value acc cs * 10 + (of_char c - 48)"
  by (induction cs arbitrary: acc) simp_all

lemma digits_value_nat_to_string: "digits_value 0 (nat_to_string n) = n"
proof (induction n rule: nat_to_string.induct)
  case (1 n)
  show ?case
  proof (cases "n < 10")
    case True
    then show ?thesis
      by (subst nat_to_string.simps) (simp add: of_char_digit_char)
  next
    case False
    with 1 show ?thesis
      by (subst nat_to_string.simps) (simp add: digits_value_snoc of_char_digit_char)
  qed
qed






section \<open>What the generator emits\<close>

text \<open>The instructions of the function being generated (of \<^verbatim>\<open>*currentFunction\<close>).\<close>

definition currentInstructions :: "IRGenerator \<Rightarrow> IRInstruction list" where
  "currentInstructions g =
     (case rev (gen_program g) of [] \<Rightarrow> [] | cur # earlier \<Rightarrow> irf_instructions cur)"

text \<open>\<open>g'\<close> comes from \<open>g\<close> by appending instructions to the current function.\<close>

definition extends :: "IRGenerator \<Rightarrow> IRGenerator \<Rightarrow> bool" where
  "extends g g' \<longleftrightarrow>
     (\<exists>cur earlier new.
        rev (gen_program g) = cur # earlier \<and>
        rev (gen_program g') = cur\<lparr>irf_instructions := irf_instructions cur @ new\<rparr> # earlier)"

definition emittedSince :: "IRGenerator \<Rightarrow> IRGenerator \<Rightarrow> IRInstruction list" where
  "emittedSince g g' = drop (length (currentInstructions g)) (currentInstructions g')"

text \<open>The ids of the temporaries that instructions have as result, and the names of the labels
  that \<^verbatim>\<open>LABEL\<close> instructions define.\<close>

definition isTempResult :: "IRInstruction \<Rightarrow> bool" where
  "isTempResult i \<longleftrightarrow> iv_type (ins_result i) = TEMP \<and> 0 \<le> iv_id (ins_result i)"

definition tempResults :: "IRInstruction list \<Rightarrow> int list" where
  "tempResults instrs = map (\<lambda>i. iv_id (ins_result i)) (filter isTempResult instrs)"

definition labelsDefined :: "IRInstruction list \<Rightarrow> string list" where
  "labelsDefined instrs = map ins_label (filter (\<lambda>i. ins_opcode i = IROpCode.LABEL) instrs)"

definition labelName :: "int \<Rightarrow> string" where
  "labelName i = ''L'' @ to_string i"

text \<open>
  The three shapes of an emitted instruction: a result in a temporary; a \<^verbatim>\<open>STORE\<close> into a
  local; or one of the instructions that have no result.
\<close>

definition wellFormed :: "IRInstruction \<Rightarrow> bool" where
  "wellFormed i \<longleftrightarrow>
     (isTempResult i \<and> ins_opcode i \<noteq> IROpCode.LABEL) \<or>
     (iv_type (ins_result i) = LOCAL \<and> ins_opcode i = STORE) \<or>
     (\<not> isTempResult i \<and> ins_opcode i \<in> {JZ, JMP, IROpCode.LABEL, RET, IROpCode.PRINT})"

lemma tempResults_append [simp]: "tempResults (xs @ ys) = tempResults xs @ tempResults ys"
  by (simp add: tempResults_def)

lemma labelsDefined_append [simp]: "labelsDefined (xs @ ys) = labelsDefined xs @ labelsDefined ys"
  by (simp add: labelsDefined_def)

lemma tempResults_Nil [simp]: "tempResults [] = []"
  by (simp add: tempResults_def)

lemma labelsDefined_Nil [simp]: "labelsDefined [] = []"
  by (simp add: labelsDefined_def)

subsection \<open>Decimal text is injective\<close>

lemma nat_to_string_inj: "nat_to_string m = nat_to_string n \<Longrightarrow> m = n"
  by (metis digits_value_nat_to_string)

lemma nat_to_string_no_minus: "nat_to_string n \<noteq> CHR ''-'' # cs"
proof
  assume a: "nat_to_string n = CHR ''-'' # cs"
  have "isdigit CHR ''-''"
    using nat_to_string_digits [of "CHR ''-''" n] a by simp
  then show False
    by (simp add: isdigit_def)
qed

lemma to_string_inj: "to_string i = to_string j \<Longrightarrow> i = j"
proof -
  assume a: "to_string i = to_string j"
  show ?thesis
  proof (cases "i < 0"; cases "j < 0")
    assume "i < 0" "j < 0"
    with a nat_to_string_inj [of "nat (- i)" "nat (- j)"] show ?thesis
      by (simp add: to_string_def)
  next
    assume "i < 0" "\<not> j < 0"
    with a nat_to_string_no_minus [of "nat j" "nat_to_string (nat (- i))"] show ?thesis
      by (simp add: to_string_def)
  next
    assume "\<not> i < 0" "j < 0"
    with a nat_to_string_no_minus [of "nat i" "nat_to_string (nat (- j))"] show ?thesis
      by (simp add: to_string_def)
  next
    assume "\<not> i < 0" "\<not> j < 0"
    with a nat_to_string_inj [of "nat i" "nat j"] show ?thesis
      by (simp add: to_string_def)
  qed
qed

lemma labelName_inj: "inj labelName"
  by (auto simp: inj_def labelName_def dest: to_string_inj)

subsection \<open>The primitive steps\<close>

lemma extends_refl: "gen_program g \<noteq> [] \<Longrightarrow> extends g g"
proof -
  assume "gen_program g \<noteq> []"
  then obtain cur earlier where "rev (gen_program g) = cur # earlier"
    by (cases "rev (gen_program g)") auto
  then show ?thesis
    unfolding extends_def by (intro exI [of _ cur] exI [of _ earlier] exI [of _ "[]"]) simp
qed

lemma extends_nonempty: "extends g g' \<Longrightarrow> gen_program g \<noteq> [] \<and> gen_program g' \<noteq> []"
  by (auto simp: extends_def)

lemma extends_trans: "extends g g1 \<Longrightarrow> extends g1 g2 \<Longrightarrow> extends g g2"
  unfolding extends_def by (elim exE conjE) (simp, metis append.assoc)

lemma extends_emitInstruction: "gen_program g \<noteq> [] \<Longrightarrow> extends g (emitInstruction i g)"
proof -
  assume "gen_program g \<noteq> []"
  then obtain cur earlier where r: "rev (gen_program g) = cur # earlier"
    by (cases "rev (gen_program g)") auto
  then show ?thesis
    unfolding extends_def
    by (intro exI [of _ cur] exI [of _ earlier] exI [of _ "[i]"]) (simp add: emitInstruction_def)
qed

lemma emittedSince_self [simp]: "emittedSince g g = []"
  by (simp add: emittedSince_def)

lemma emittedSince_trans:
  "extends g g1 \<Longrightarrow> extends g1 g2 \<Longrightarrow>
     emittedSince g g2 = emittedSince g g1 @ emittedSince g1 g2"
  unfolding extends_def emittedSince_def currentInstructions_def
  by (elim exE conjE) simp

lemma emittedSince_emitInstruction:
  "gen_program g \<noteq> [] \<Longrightarrow> emittedSince g (emitInstruction i g) = [i]"
proof -
  assume "gen_program g \<noteq> []"
  then obtain cur earlier where r: "rev (gen_program g) = cur # earlier"
    by (cases "rev (gen_program g)") auto
  then show ?thesis
    by (simp add: emittedSince_def currentInstructions_def emitInstruction_def)
qed

lemma emitInstruction_fields [simp]:
  "tempCounter (emitInstruction i g) = tempCounter g"
  "labelCounter (emitInstruction i g) = labelCounter g"
  "symbolTable (emitInstruction i g) = symbolTable g"
  by (simp_all add: emitInstruction_def split: list.splits)

text \<open>
  \<open>emits g g' ts ls\<close>: from \<open>g\<close> to \<open>g'\<close> the counters did not go down and instructions were
  appended to the current function; their results in temporaries are the ids \<open>ts\<close>, each
  once; the labels they define are the numbers \<open>ls\<close>, each once; every one is well formed.
\<close>

definition emits :: "IRGenerator \<Rightarrow> IRGenerator \<Rightarrow> int set \<Rightarrow> int set \<Rightarrow> bool" where
  "emits g g' ts ls \<longleftrightarrow>
     extends g g' \<and> tempCounter g \<le> tempCounter g' \<and> labelCounter g \<le> labelCounter g' \<and>
     set (tempResults (emittedSince g g')) = ts \<and> distinct (tempResults (emittedSince g g')) \<and>
     set (labelsDefined (emittedSince g g')) = labelName ` ls \<and>
     distinct (labelsDefined (emittedSince g g')) \<and>
     (\<forall>i \<in> set (emittedSince g g'). wellFormed i)"

lemma emits_refl: "gen_program g \<noteq> [] \<Longrightarrow> emits g g {} {}"
  by (simp add: emits_def extends_refl)

lemma emits_seq:
  assumes "emits g g1 ts1 ls1" and "emits g1 g2 ts2 ls2"
    and "ts1 \<inter> ts2 = {}" and "ls1 \<inter> ls2 = {}"
  shows "emits g g2 (ts1 \<union> ts2) (ls1 \<union> ls2)"
proof -
  have e: "emittedSince g g2 = emittedSince g g1 @ emittedSince g1 g2"
    using assms(1,2) by (simp add: emits_def emittedSince_trans)
  have "labelName ` ls1 \<inter> labelName ` ls2 = {}"
    using assms(4) labelName_inj by (auto simp: inj_def)
  then show ?thesis
    using assms extends_trans [of g g1 g2]
    by (auto simp: emits_def e image_Un)
qed

lemma extends_same: "gen_program g' = gen_program g \<Longrightarrow> gen_program g \<noteq> [] \<Longrightarrow> extends g g'"
  using extends_refl [of g] by (simp add: extends_def)

lemma emittedSince_same: "gen_program g' = gen_program g \<Longrightarrow> emittedSince g g' = []"
  by (simp add: emittedSince_def currentInstructions_def)

lemma emits_createTemp: "gen_program g \<noteq> [] \<Longrightarrow> emits g (snd (createTemp g)) {} {}"
  by (simp add: emits_def createTemp_def extends_same emittedSince_same)

lemma emits_createLabel: "gen_program g \<noteq> [] \<Longrightarrow> emits g (snd (createLabel g)) {} {}"
  by (simp add: emits_def createLabel_def extends_same emittedSince_same)

lemma emits_symbolTable:
  "gen_program g \<noteq> [] \<Longrightarrow> emits g (g\<lparr>symbolTable := tab\<rparr>) {} {}"
  by (simp add: emits_def extends_same emittedSince_same)

lemma emits_temp:
  "gen_program g \<noteq> [] \<Longrightarrow> isTempResult i \<Longrightarrow> ins_opcode i \<noteq> IROpCode.LABEL \<Longrightarrow>
     emits g (emitInstruction i g) {iv_id (ins_result i)} {}"
  by (simp add: emits_def extends_emitInstruction emittedSince_emitInstruction tempResults_def
                labelsDefined_def wellFormed_def)

lemma emits_label:
  "gen_program g \<noteq> [] \<Longrightarrow> \<not> isTempResult i \<Longrightarrow> ins_opcode i = IROpCode.LABEL \<Longrightarrow>
     ins_label i = labelName l \<Longrightarrow> emits g (emitInstruction i g) {} {l}"
  by (simp add: emits_def extends_emitInstruction emittedSince_emitInstruction tempResults_def
                labelsDefined_def wellFormed_def)

lemma emits_plain:
  "gen_program g \<noteq> [] \<Longrightarrow> \<not> isTempResult i \<Longrightarrow> ins_opcode i \<noteq> IROpCode.LABEL \<Longrightarrow>
     wellFormed i \<Longrightarrow> emits g (emitInstruction i g) {} {}"
  by (simp add: emits_def extends_emitInstruction emittedSince_emitInstruction tempResults_def
                labelsDefined_def)

subsection \<open>A whole visit\<close>

definition localsOnly :: "IRGenerator \<Rightarrow> bool" where
  "localsOnly g \<longleftrightarrow> (\<forall>v \<in> ran (symbolTable g). iv_type v = LOCAL)"

definition genOk :: "IRGenerator \<Rightarrow> bool" where
  "genOk g \<longleftrightarrow>
     gen_program g \<noteq> [] \<and> 0 \<le> tempCounter g \<and> 0 \<le> labelCounter g \<and> localsOnly g"

text \<open>
  \<open>visits g g'\<close>: the temporaries and the labels of the instructions emitted from \<open>g\<close> to
  \<open>g'\<close> are exactly those that the two counters handed out in between.
\<close>

definition visits :: "IRGenerator \<Rightarrow> IRGenerator \<Rightarrow> bool" where
  "visits g g' \<longleftrightarrow>
     localsOnly g' \<and>
     emits g g' {tempCounter g..<tempCounter g'} {labelCounter g..<labelCounter g'}"

lemma emits_nonempty: "emits g g' ts ls \<Longrightarrow> gen_program g' \<noteq> [] \<and> gen_program g \<noteq> []"
  using extends_nonempty by (auto simp: emits_def)

lemma emits_seqI:
  "emits g g1 ts1 ls1 \<Longrightarrow> emits g1 g2 ts2 ls2 \<Longrightarrow> ts1 \<inter> ts2 = {} \<Longrightarrow> ls1 \<inter> ls2 = {} \<Longrightarrow>
     ts = ts1 \<union> ts2 \<Longrightarrow> ls = ls1 \<union> ls2 \<Longrightarrow> emits g g2 ts ls"
  using emits_seq by blast

lemma emits_counters:
  "emits g g' ts ls \<Longrightarrow> tempCounter g \<le> tempCounter g' \<and> labelCounter g \<le> labelCounter g'"
  by (simp add: emits_def)

lemma visits_genOk: "genOk g \<Longrightarrow> visits g g' \<Longrightarrow> genOk g'"
  using emits_nonempty emits_counters by (fastforce simp: genOk_def visits_def)

lemma visits_refl: "genOk g \<Longrightarrow> visits g g"
  by (simp add: visits_def genOk_def emits_refl)

lemma visits_seq: "visits g g1 \<Longrightarrow> visits g1 g2 \<Longrightarrow> visits g g2"
proof -
  assume a: "visits g g1" and b: "visits g1 g2"
  have c: "tempCounter g \<le> tempCounter g1" "tempCounter g1 \<le> tempCounter g2"
    "labelCounter g \<le> labelCounter g1" "labelCounter g1 \<le> labelCounter g2"
    using a b emits_counters by (auto simp: visits_def)
  have "emits g g2 {tempCounter g..<tempCounter g2} {labelCounter g..<labelCounter g2}"
    using a b c by (intro emits_seqI [of g g1 _ _ g2]) (auto simp: visits_def)
  with b show ?thesis by (simp add: visits_def)
qed

text \<open>A fresh temporary, instructions in between, then the instruction that has it as result.\<close>

lemma visits_call:
  assumes "genOk g" and "visits (snd (createTemp g)) g2"
    and "ins_result i = fst (createTemp g)" and "ins_opcode i \<noteq> IROpCode.LABEL"
  shows "visits g (emitInstruction i g2)"
proof -
  let ?g1 = "snd (createTemp g)"
  have g1: "tempCounter ?g1 = tempCounter g + 1" "labelCounter ?g1 = labelCounter g"
    by (simp_all add: createTemp_def)
  have c: "tempCounter ?g1 \<le> tempCounter g2" "labelCounter ?g1 \<le> labelCounter g2"
    using assms(2) emits_counters by (auto simp: visits_def)
  have t: "isTempResult i" "iv_id (ins_result i) = tempCounter g"
    using assms(1,3) by (simp_all add: isTempResult_def createTemp_def genOk_def)
  have e1: "emits g ?g1 {} {}"
    using assms(1) by (simp add: emits_createTemp genOk_def)
  have e2: "emits ?g1 g2 {tempCounter ?g1..<tempCounter g2} {labelCounter ?g1..<labelCounter g2}"
    using assms(2) by (simp add: visits_def)
  have e3: "emits g2 (emitInstruction i g2) {tempCounter g} {}"
    using emits_temp [of g2 i] emits_nonempty [OF e2] t assms(4) by simp
  have e12: "emits g g2 {tempCounter ?g1..<tempCounter g2} {labelCounter ?g1..<labelCounter g2}"
    by (rule emits_seqI [OF e1 e2]) auto
  have "emits g (emitInstruction i g2) {tempCounter g..<tempCounter g2}
          {labelCounter g..<labelCounter g2}"
    using g1 c by (intro emits_seqI [OF e12 e3]) auto
  then show ?thesis
    using assms(2) by (simp add: visits_def localsOnly_def)
qed

lemma visits_newTemp:
  assumes "genOk g" and "ins_result i = fst (createTemp g)"
    and "ins_opcode i \<noteq> IROpCode.LABEL"
  shows "visits g (emitInstruction i (snd (createTemp g)))"
proof -
  have "genOk (snd (createTemp g))"
    using assms(1) by (simp add: genOk_def createTemp_def localsOnly_def)
  then show ?thesis
    using visits_call [OF assms(1) visits_refl assms(2,3)] by simp
qed

lemma visits_plain:
  assumes "genOk g" and "\<not> isTempResult i" and "ins_opcode i \<noteq> IROpCode.LABEL"
    and "wellFormed i"
  shows "visits g (emitInstruction i g)"
  using assms emits_plain [of g i] by (simp add: visits_def genOk_def localsOnly_def)

lemma visits_resolveLocal:
  "genOk g \<Longrightarrow> visits g (snd (resolveLocal n g)) \<and> iv_type (fst (resolveLocal n g)) = LOCAL"
  by (auto simp: resolveLocal_def visits_def genOk_def localsOnly_def emits_refl Let_def
                 emits_symbolTable ran_def split: option.splits)

lemma tokenTypeToOpCode_not_LABEL: "tokenTypeToOpCode t \<noteq> IROpCode.LABEL"
  by (cases t) simp_all

lemma graphicsOpCode_not_LABEL: "graphicsOpCode n = Some op \<Longrightarrow> op \<noteq> IROpCode.LABEL"
  by (auto simp: graphicsOpCode_def split: if_splits)

lemma visits_emitOp_call:
  "genOk g \<Longrightarrow> visits (snd (createTemp g)) g2 \<Longrightarrow> op \<noteq> IROpCode.LABEL \<Longrightarrow>
     visits g (emitOp op operands (fst (createTemp g)) g2)"
  unfolding emitOp_def by (rule visits_call) (simp_all add: IRInstruction_new_def)

lemma visits_emitOp_new:
  "genOk g \<Longrightarrow> op \<noteq> IROpCode.LABEL \<Longrightarrow>
     visits g (emitOp op operands (fst (createTemp g)) (snd (createTemp g)))"
  unfolding emitOp_def by (rule visits_newTemp) (simp_all add: IRInstruction_new_def)

lemma visits_emitCall_call:
  "genOk g \<Longrightarrow> visits (snd (createTemp g)) g2 \<Longrightarrow>
     visits g (emitCall l operands (fst (createTemp g)) g2)"
  unfolding emitCall_def by (rule visits_call) (simp_all add: IRInstruction_new_def)

lemma visits_emitCall_new:
  "genOk g \<Longrightarrow> visits g (emitCall l operands (fst (createTemp g)) (snd (createTemp g)))"
  unfolding emitCall_def by (rule visits_newTemp) (simp_all add: IRInstruction_new_def)

lemma visits_emitStore:
  "genOk g \<Longrightarrow> iv_type var = LOCAL \<Longrightarrow> visits g (emitOp STORE operands var g)"
  unfolding emitOp_def
  by (rule visits_plain) (simp_all add: IRInstruction_new_def wellFormed_def isTempResult_def)

lemma visits_emitLabelled:
  "genOk g \<Longrightarrow> op \<in> {JZ, JMP, RET, IROpCode.PRINT} \<Longrightarrow> visits g (emitLabelled op operands l g)"
  unfolding emitLabelled_def
  by (rule visits_plain)
     (auto simp: IRInstruction_new_def wellFormed_def isTempResult_def IRValue_default_def)

lemma genOk_createTemp: "genOk g \<Longrightarrow> genOk (snd (createTemp g))"
  by (simp add: genOk_def createTemp_def localsOnly_def)

lemma visitExpression_visits:
  "genOk g \<longrightarrow> visits g (snd (visitExpression e g))"
  "genOk g \<longrightarrow> visits g (snd (visitArguments es g))"
proof (induction e g and es g rule: visitExpression_visitArguments.induct)
  case (1 left op right g)
  show ?case
  proof
    assume ok: "genOk g"
    let ?g1 = "snd (visitExpression left g)"
    let ?g2 = "snd (visitExpression right ?g1)"
    have v1: "visits g ?g1" using 1(1) ok by simp
    have ok1: "genOk ?g1" by (rule visits_genOk [OF ok v1])
    have v2: "visits ?g1 ?g2" using 1(2) [OF prod.collapse] ok1 by simp
    have ok2: "genOk ?g2" by (rule visits_genOk [OF ok1 v2])
    have v3: "visits ?g2
        (emitOp (if op = TokenType.OR \<or> op = COMMA then CONCAT else tokenTypeToOpCode op)
           [fst (visitExpression left g), fst (visitExpression right ?g1)]
           (fst (createTemp ?g2)) (snd (createTemp ?g2)))"
      by (rule visits_emitOp_new [OF ok2]) (simp add: tokenTypeToOpCode_not_LABEL)
    show "visits g (snd (visitExpression (BinaryOp left op right) g))"
      using visits_seq [OF v1 visits_seq [OF v2 v3]] by (simp add: case_prod_beta)
  qed
next
  case (2 op operand g)
  show ?case
  proof
    assume ok: "genOk g"
    let ?g1 = "snd (visitExpression operand g)"
    have v1: "visits g ?g1" using 2 ok by simp
    have ok1: "genOk ?g1" by (rule visits_genOk [OF ok v1])
    have v2: "visits ?g1
        (emitOp (tokenTypeToOpCode op) [fst (visitExpression operand g)]
           (fst (createTemp ?g1)) (snd (createTemp ?g1)))"
      by (rule visits_emitOp_new [OF ok1]) (simp add: tokenTypeToOpCode_not_LABEL)
    show "visits g (snd (visitExpression (UnaryOp op operand) g))"
      using visits_seq [OF v1 v2] by (simp add: case_prod_beta)
  qed
next
  case (3 ty v g)
  show ?case
    by (auto simp: visitLiteral_def Let_def case_prod_beta visits_refl
             intro!: visits_emitOp_new)
next
  case (4 n g)
  show ?case
    by (simp add: visits_resolveLocal)
next
  case (5 n arguments g)
  show ?case
  proof
    assume ok: "genOk g"
    let ?g1 = "snd (createTemp g)"
    have ok1: "genOk ?g1" by (rule genOk_createTemp [OF ok])
    have args: "graphicsOpCode n \<noteq> None \<or>
        (n \<noteq> ''display'' \<and> n \<noteq> ''quit'' \<and> n \<noteq> ''isKeyDown'' \<and> n \<noteq> ''updateInput'') \<Longrightarrow>
        visits ?g1 (snd (visitArguments arguments ?g1))"
      using 5(2) [OF prod.collapse] 5(3) [OF prod.collapse] ok1 by auto
    have key: "graphicsOpCode n = None \<Longrightarrow> n = ''isKeyDown'' \<Longrightarrow> arguments = a # rest \<Longrightarrow>
        visits ?g1 (snd (visitExpression a ?g1))" for a rest
      using 5(1) [OF prod.collapse, of a rest] ok1 by simp
    show "visits g (snd (visitExpression (FunctionCall n arguments) g))"
    proof (cases "graphicsOpCode n")
      case (Some op)
      then show ?thesis
        using args ok graphicsOpCode_not_LABEL [OF Some]
        by (simp add: case_prod_beta visits_emitOp_call)
    next
      case None
      have kd: "graphicsOpCode ''isKeyDown'' = None"
        by (simp add: graphicsOpCode_def)
      from None show ?thesis
        using args key kd ok ok1
        by (cases arguments)
           (auto simp: case_prod_beta visits_emitOp_call visits_emitCall_call visits_refl)
    qed
  qed
next
  case (6 n v g)
  show ?case
  proof
    assume ok: "genOk g"
    let ?g1 = "snd (visitExpression v g)"
    have v1: "visits g ?g1" using 6 ok by simp
    have ok1: "genOk ?g1" by (rule visits_genOk [OF ok v1])
    have v2: "visits ?g1 (snd (resolveLocal n ?g1))"
      and l: "iv_type (fst (resolveLocal n ?g1)) = LOCAL"
      using visits_resolveLocal [OF ok1] by simp_all
    have ok2: "genOk (snd (resolveLocal n ?g1))" by (rule visits_genOk [OF ok1 v2])
    have v3: "visits (snd (resolveLocal n ?g1))
        (emitOp STORE [fst (visitExpression v g)] (fst (resolveLocal n ?g1))
           (snd (resolveLocal n ?g1)))"
      by (rule visits_emitStore [OF ok2 l])
    show "visits g (snd (visitExpression (Assignment n v) g))"
      using visits_seq [OF v1 visits_seq [OF v2 v3]] by (simp add: case_prod_beta)
  qed
next
  case (7 array index g)
  show ?case
  proof
    assume ok: "genOk g"
    let ?g1 = "snd (visitExpression array g)"
    let ?g2 = "snd (visitExpression index ?g1)"
    have v1: "visits g ?g1" using 7(1) ok by simp
    have ok1: "genOk ?g1" by (rule visits_genOk [OF ok v1])
    have v2: "visits ?g1 ?g2" using 7(2) [OF prod.collapse] ok1 by simp
    have ok2: "genOk ?g2" by (rule visits_genOk [OF ok1 v2])
    have v3: "visits ?g2
        (emitOp LOAD [fst (visitExpression array g), fst (visitExpression index ?g1)]
           (fst (createTemp ?g2)) (snd (createTemp ?g2)))"
      by (rule visits_emitOp_new [OF ok2]) simp
    show "visits g (snd (visitExpression (ArrayAccess array index) g))"
      using visits_seq [OF v1 visits_seq [OF v2 v3]] by (simp add: case_prod_beta)
  qed
next
  case (8 prompt g)
  show ?case
    by (auto simp: case_prod_beta intro!: visits_newTemp) (simp add: IRInstruction_new_def)
next
  case (9 prompt g)
  show ?case
    by (auto simp: case_prod_beta intro!: visits_emitOp_new)
next
  case (10 g)
  show ?case
    by (simp add: visits_refl)
next
  case (11 arg args g)
  show ?case
  proof
    assume ok: "genOk g"
    let ?g1 = "snd (visitExpression arg g)"
    have v1: "visits g ?g1" using 11(1) ok by simp
    have ok1: "genOk ?g1" by (rule visits_genOk [OF ok v1])
    have v2: "visits ?g1 (snd (visitArguments args ?g1))"
      using 11(2) [OF prod.collapse] ok1 by simp
    show "visits g (snd (visitArguments (arg # args) g))"
      using visits_seq [OF v1 v2] by (simp add: case_prod_beta)
  qed
qed

subsection \<open>Statements: labels are handed out before they are defined\<close>

text \<open>As \<open>visits\<close>, with the set of the labels defined so far left open.\<close>

definition emitsL :: "IRGenerator \<Rightarrow> IRGenerator \<Rightarrow> int set \<Rightarrow> bool" where
  "emitsL g g' ls \<longleftrightarrow> localsOnly g' \<and> emits g g' {tempCounter g..<tempCounter g'} ls"

lemma visits_emitsL: "visits g g' = emitsL g g' {labelCounter g..<labelCounter g'}"
  by (simp add: visits_def emitsL_def)

lemma emitsL_genOk: "genOk g \<Longrightarrow> emitsL g g' ls \<Longrightarrow> genOk g'"
  using emits_nonempty emits_counters by (fastforce simp: genOk_def emitsL_def)

lemma emitsL_counters:
  "emitsL g g' ls \<Longrightarrow> tempCounter g \<le> tempCounter g' \<and> labelCounter g \<le> labelCounter g'"
  using emits_counters by (auto simp: emitsL_def)

lemma emitsL_seqI:
  assumes "emitsL g g1 ls1" and "emitsL g1 g2 ls2" and "ls1 \<inter> ls2 = {}" and "ls = ls1 \<union> ls2"
  shows "emitsL g g2 ls"
proof -
  have c: "tempCounter g \<le> tempCounter g1" "tempCounter g1 \<le> tempCounter g2"
    using assms(1,2) emitsL_counters by auto
  have e1: "emits g g1 {tempCounter g..<tempCounter g1} ls1"
    using assms(1) by (simp add: emitsL_def)
  have e2: "emits g1 g2 {tempCounter g1..<tempCounter g2} ls2"
    using assms(2) by (simp add: emitsL_def)
  have "emits g g2 {tempCounter g..<tempCounter g2} ls"
    using c assms(3,4) by (intro emits_seqI [OF e1 e2]) auto
  with assms(2) show ?thesis by (simp add: emitsL_def)
qed

lemma emitsL_refl: "genOk g \<Longrightarrow> emitsL g g {}"
  by (simp add: emitsL_def genOk_def emits_refl)

lemma emitsL_createLabel: "genOk g \<Longrightarrow> emitsL g (snd (createLabel g)) {}"
  using emits_createLabel [of g]
  by (simp add: emitsL_def genOk_def localsOnly_def createLabel_def)

lemma fst_createLabel: "fst (createLabel g) = labelName (labelCounter g)"
  by (simp add: createLabel_def labelName_def)

lemma createLabel_fields [simp]:
  "labelCounter (snd (createLabel g)) = labelCounter g + 1"
  "tempCounter (snd (createLabel g)) = tempCounter g"
  by (simp_all add: createLabel_def)

lemma emit_fields [simp]:
  "labelCounter (emitLabelled op operands l g) = labelCounter g"
  "tempCounter (emitLabelled op operands l g) = tempCounter g"
  "labelCounter (emitOp op operands r g) = labelCounter g"
  "tempCounter (emitOp op operands r g) = tempCounter g"
  by (simp_all add: emitLabelled_def emitOp_def)

lemma emitsL_LABEL:
  "genOk g \<Longrightarrow> emitsL g (emitLabelled IROpCode.LABEL [] (labelName l) g) {l}"
  using emits_label [of g "(IRInstruction_new IROpCode.LABEL)\<lparr>ins_operands := [],
                              ins_label := labelName l\<rparr>" l]
  by (simp add: emitsL_def genOk_def localsOnly_def emitLabelled_def IRInstruction_new_def
                isTempResult_def IRValue_default_def)

lemma emitsL_jump:
  "genOk g \<Longrightarrow> op \<in> {JZ, JMP, RET, IROpCode.PRINT} \<Longrightarrow> emitsL g (emitLabelled op operands l g) {}"
  using visits_emitLabelled [of g op operands l] by (simp add: visits_emitsL)

lemma emitsL_expression:
  "genOk g \<Longrightarrow>
     emitsL g (snd (visitExpression e g))
       {labelCounter g..<labelCounter (snd (visitExpression e g))}"
  using visitExpression_visits(1) [of g e] by (simp add: visits_emitsL)

lemma genOk_symbolTable:
  "genOk g \<Longrightarrow> iv_type var = LOCAL \<Longrightarrow> genOk (g\<lparr>symbolTable := (symbolTable g)(n \<mapsto> var)\<rparr>)"
  by (auto simp: genOk_def localsOnly_def ran_def)

lemma emitsL_symbolTable:
  "genOk g \<Longrightarrow> iv_type var = LOCAL \<Longrightarrow>
     emitsL g (g\<lparr>symbolTable := (symbolTable g)(n \<mapsto> var)\<rparr>) {}"
  using genOk_symbolTable [of g var n] emits_symbolTable [of g]
  by (simp add: emitsL_def genOk_def)

lemma visits_visitVariableDecl: "genOk g \<Longrightarrow> visits g (visitVariableDecl n initializer g)"
proof (cases initializer)
  case None
  assume "genOk g"
  then show ?thesis
    using None emitsL_symbolTable [of g "\<lparr>iv_type = LOCAL, iv_name = n, iv_id = - 1\<rparr>" n]
    by (simp add: visitVariableDecl_def Let_def visits_emitsL)
next
  case (Some e)
  assume ok: "genOk g"
  let ?var = "\<lparr>iv_type = LOCAL, iv_name = n, iv_id = - 1\<rparr>"
  let ?g1 = "g\<lparr>symbolTable := (symbolTable g)(n \<mapsto> ?var)\<rparr>"
  let ?g2 = "snd (visitExpression e ?g1)"
  have ok1: "genOk ?g1" using genOk_symbolTable [OF ok, of ?var n] by simp
  have v1: "visits g ?g1"
    using emitsL_symbolTable [OF ok, of ?var n] by (simp add: visits_emitsL)
  have v2: "visits ?g1 ?g2" using visitExpression_visits(1) [of ?g1 e] ok1 by simp
  have ok2: "genOk ?g2" by (rule visits_genOk [OF ok1 v2])
  have v3: "visits ?g2 (emitOp STORE [fst (visitExpression e ?g1)] ?var ?g2)"
    by (rule visits_emitStore [OF ok2]) simp
  show ?thesis
    using visits_seq [OF v1 visits_seq [OF v2 v3]] Some
    by (simp add: visitVariableDecl_def Let_def case_prod_beta)
qed

lemma visits_visitReturnStatement: "genOk g \<Longrightarrow> visits g (visitReturnStatement expression g)"
proof (cases expression)
  case None
  assume "genOk g"
  then show ?thesis
    using None by (simp add: visitReturnStatement_def visits_emitLabelled)
next
  case (Some e)
  assume ok: "genOk g"
  let ?g1 = "snd (visitExpression e g)"
  have v1: "visits g ?g1" using visitExpression_visits(1) [of g e] ok by simp
  have ok1: "genOk ?g1" by (rule visits_genOk [OF ok v1])
  have v2: "visits ?g1 (emitLabelled RET [fst (visitExpression e g)] [] ?g1)"
    by (rule visits_emitLabelled [OF ok1]) simp
  show ?thesis
    using visits_seq [OF v1 v2] Some by (simp add: visitReturnStatement_def case_prod_beta)
qed

lemma visitStatement_visits:
  "genOk g \<longrightarrow> visits g (visitStatement s g)"
  "genOk g \<longrightarrow> visits g (visitBlockStatement ss g)"
proof (induction s g and ss g rule: visitStatement_visitBlockStatement.induct)
  case (1 statements g)
  then show ?case by simp
next
  case (2 expression g)
  show ?case by (simp add: visits_visitReturnStatement)
next
  case (3 condition thenBranch elseBranch g)
  show ?case
  proof
    assume ok: "genOk g"
    define g1 where "g1 = snd (visitExpression condition g)"
    define lc where "lc = labelCounter g1"
    define g2 where "g2 = snd (createLabel g1)"
    define g3 where "g3 = snd (createLabel g2)"
    define g4 where "g4 = snd (createLabel g3)"
    define g5 where "g5 = emitLabelled JZ [fst (visitExpression condition g)] (fst (createLabel g2)) g4"
    define g6 where "g6 = emitLabelled IROpCode.LABEL [] (fst (createLabel g1)) g5"
    define g7 where "g7 = visitStatement thenBranch g6"
    define g8 where "g8 = emitLabelled JMP [] (fst (createLabel g3)) g7"
    define g9 where "g9 = emitLabelled IROpCode.LABEL [] (fst (createLabel g2)) g8"
    define g10 where "g10 = (case elseBranch of None \<Rightarrow> g9 | Some s \<Rightarrow> visitStatement s g9)"
    define g11 where "g11 = emitLabelled IROpCode.LABEL [] (fst (createLabel g3)) g10"
    note defs = g1_def g2_def g3_def g4_def g5_def g6_def g7_def g8_def g9_def g10_def g11_def
    have r: "visitStatement (IfStatement condition thenBranch elseBranch) g = g11"
      by (simp add: case_prod_beta Let_def defs split: option.splits)
    have lthen: "fst (createLabel g1) = labelName lc"
      and lelse: "fst (createLabel g2) = labelName (lc + 1)"
      and lend: "fst (createLabel g3) = labelName (lc + 2)"
      by (simp_all add: fst_createLabel lc_def g2_def g3_def add.commute)
    have e1: "emitsL g g1 {labelCounter g..<lc}" and ok1: "genOk g1"
      using emitsL_expression [OF ok, of condition] emitsL_genOk [OF ok]
      by (auto simp: g1_def lc_def)
    have e2: "emitsL g1 g2 {}" and ok2: "genOk g2"
      using emitsL_createLabel [OF ok1] emitsL_genOk [OF ok1] by (auto simp: g2_def)
    have e3: "emitsL g2 g3 {}" and ok3: "genOk g3"
      using emitsL_createLabel [OF ok2] emitsL_genOk [OF ok2] by (auto simp: g3_def)
    have e4: "emitsL g3 g4 {}" and ok4: "genOk g4"
      using emitsL_createLabel [OF ok3] emitsL_genOk [OF ok3] by (auto simp: g4_def)
    have e5: "emitsL g4 g5 {}" and ok5: "genOk g5"
      using emitsL_jump [OF ok4, of JZ] emitsL_genOk [OF ok4] by (auto simp: g5_def)
    have e6: "emitsL g5 g6 {lc}" and ok6: "genOk g6"
      using emitsL_LABEL [OF ok5, of lc] emitsL_genOk [OF ok5] by (auto simp: g6_def lthen)
    have ih1: "genOk g6 \<longrightarrow> visits g6 (visitStatement thenBranch g6)"
      using 3(1) [OF prod.collapse prod.collapse prod.collapse prod.collapse refl refl]
      by (simp add: defs)
    have e7: "emitsL g6 g7 {labelCounter g6..<labelCounter g7}" and ok7: "genOk g7"
      using ih1 ok6 emitsL_genOk [OF ok6] by (auto simp: g7_def visits_emitsL)
    have e8: "emitsL g7 g8 {}" and ok8: "genOk g8"
      using emitsL_jump [OF ok7, of JMP] emitsL_genOk [OF ok7] by (auto simp: g8_def)
    have e9: "emitsL g8 g9 {lc + 1}" and ok9: "genOk g9"
      using emitsL_LABEL [OF ok8, of "lc + 1"] emitsL_genOk [OF ok8]
      by (auto simp: g9_def lelse)
    have ih2: "elseBranch = Some s \<Longrightarrow> genOk g9 \<longrightarrow> visits g9 (visitStatement s g9)" for s
      using 3(2) [OF prod.collapse prod.collapse prod.collapse prod.collapse refl refl refl
                     refl refl, of s]
      by (simp add: defs)
    have e10: "emitsL g9 g10 {labelCounter g9..<labelCounter g10}" and ok10: "genOk g10"
      using ih2 ok9 emitsL_genOk [OF ok9] emitsL_refl [OF ok9]
      by (cases elseBranch; simp add: g10_def visits_emitsL)+
    have e11: "emitsL g10 g11 {lc + 2}"
      using emitsL_LABEL [OF ok10, of "lc + 2"] by (simp add: g11_def lend)
    have c6: "labelCounter g6 = lc + 3"
      by (simp add: g6_def g5_def g4_def g3_def g2_def lc_def)
    have c9: "labelCounter g9 = labelCounter g7"
      by (simp add: g9_def g8_def)
    have c11: "labelCounter g11 = labelCounter g10"
      by (simp add: g11_def)
    have c0: "labelCounter g \<le> lc"
      using emitsL_counters [OF e1] by (simp add: lc_def)
    have c7: "lc + 3 \<le> labelCounter g7"
      using emitsL_counters [OF e7] c6 by simp
    have c10: "labelCounter g7 \<le> labelCounter g10"
      using emitsL_counters [OF e10] c9 by simp
    have a2: "emitsL g g2 {labelCounter g..<lc}" by (rule emitsL_seqI [OF e1 e2]) auto
    have a3: "emitsL g g3 {labelCounter g..<lc}" by (rule emitsL_seqI [OF a2 e3]) auto
    have a4: "emitsL g g4 {labelCounter g..<lc}" by (rule emitsL_seqI [OF a3 e4]) auto
    have a5: "emitsL g g5 {labelCounter g..<lc}" by (rule emitsL_seqI [OF a4 e5]) auto
    have a6: "emitsL g g6 {labelCounter g..<lc + 1}"
      using c0 by (intro emitsL_seqI [OF a5 e6]) auto
    have a7: "emitsL g g7 ({labelCounter g..<lc + 1} \<union> {lc + 3..<labelCounter g7})"
      using c6 by (intro emitsL_seqI [OF a6 e7]) auto
    have a8: "emitsL g g8 ({labelCounter g..<lc + 1} \<union> {lc + 3..<labelCounter g7})"
      by (rule emitsL_seqI [OF a7 e8]) auto
    have a9: "emitsL g g9 ({labelCounter g..<lc + 2} \<union> {lc + 3..<labelCounter g7})"
      using c0 c7 by (intro emitsL_seqI [OF a8 e9]) auto
    have a10: "emitsL g g10 ({labelCounter g..<lc + 2} \<union> {lc + 3..<labelCounter g10})"
      using c0 c7 c9 c10 by (intro emitsL_seqI [OF a9 e10]) auto
    have a11: "emitsL g g11 {labelCounter g..<labelCounter g11}"
      using c0 c7 c10 c11 by (intro emitsL_seqI [OF a10 e11]) auto
    show "visits g (visitStatement (IfStatement condition thenBranch elseBranch) g)"
      unfolding r visits_emitsL by (rule a11)
  qed
next
  case (4 condition body g)
  show ?case
  proof
    assume ok: "genOk g"
    define lc where "lc = labelCounter g"
    define g1 where "g1 = snd (createLabel g)"
    define g2 where "g2 = snd (createLabel g1)"
    define g3 where "g3 = emitLabelled IROpCode.LABEL [] (fst (createLabel g)) g2"
    define g4 where "g4 = snd (visitExpression condition g3)"
    define g5 where "g5 = emitLabelled JZ [fst (visitExpression condition g3)] (fst (createLabel g1)) g4"
    define g6 where "g6 = visitStatement body g5"
    define g7 where "g7 = emitLabelled JMP [] (fst (createLabel g)) g6"
    define g8 where "g8 = emitLabelled IROpCode.LABEL [] (fst (createLabel g1)) g7"
    note defs = g1_def g2_def g3_def g4_def g5_def g6_def g7_def g8_def
    have r: "visitStatement (WhileStatement condition body) g = g8"
      by (simp add: case_prod_beta Let_def defs split: option.splits)
    have lloop: "fst (createLabel g) = labelName lc"
      and lend: "fst (createLabel g1) = labelName (lc + 1)"
      by (simp_all add: fst_createLabel lc_def g1_def)
    have e1: "emitsL g g1 {}" and ok1: "genOk g1"
      using emitsL_createLabel [OF ok] emitsL_genOk [OF ok] by (auto simp: g1_def)
    have e2: "emitsL g1 g2 {}" and ok2: "genOk g2"
      using emitsL_createLabel [OF ok1] emitsL_genOk [OF ok1] by (auto simp: g2_def)
    have e3: "emitsL g2 g3 {lc}" and ok3: "genOk g3"
      using emitsL_LABEL [OF ok2, of lc] emitsL_genOk [OF ok2] by (auto simp: g3_def lloop)
    have e4: "emitsL g3 g4 {labelCounter g3..<labelCounter g4}" and ok4: "genOk g4"
      using emitsL_expression [OF ok3, of condition] emitsL_genOk [OF ok3]
      by (auto simp: g4_def)
    have e5: "emitsL g4 g5 {}" and ok5: "genOk g5"
      using emitsL_jump [OF ok4, of JZ] emitsL_genOk [OF ok4] by (auto simp: g5_def)
    have ih: "genOk g5 \<longrightarrow> visits g5 (visitStatement body g5)"
      using 4 [OF prod.collapse prod.collapse refl prod.collapse refl] by (simp add: defs)
    have e6: "emitsL g5 g6 {labelCounter g5..<labelCounter g6}" and ok6: "genOk g6"
      using ih ok5 emitsL_genOk [OF ok5] by (auto simp: g6_def visits_emitsL)
    have e7: "emitsL g6 g7 {}" and ok7: "genOk g7"
      using emitsL_jump [OF ok6, of JMP] emitsL_genOk [OF ok6] by (auto simp: g7_def)
    have e8: "emitsL g7 g8 {lc + 1}"
      using emitsL_LABEL [OF ok7, of "lc + 1"] by (simp add: g8_def lend)
    have c3: "labelCounter g3 = lc + 2"
      by (simp add: g3_def g2_def g1_def lc_def)
    have c5: "labelCounter g5 = labelCounter g4"
      by (simp add: g5_def)
    have c8: "labelCounter g8 = labelCounter g6"
      by (simp add: g8_def g7_def)
    have c4: "lc + 2 \<le> labelCounter g4"
      using emitsL_counters [OF e4] c3 by simp
    have c6: "labelCounter g4 \<le> labelCounter g6"
      using emitsL_counters [OF e6] c5 by simp
    have a2: "emitsL g g2 {}" by (rule emitsL_seqI [OF e1 e2]) auto
    have a3: "emitsL g g3 {lc}" by (rule emitsL_seqI [OF a2 e3]) auto
    have a4: "emitsL g g4 ({lc} \<union> {lc + 2..<labelCounter g4})"
      using c3 by (intro emitsL_seqI [OF a3 e4]) auto
    have a5: "emitsL g g5 ({lc} \<union> {lc + 2..<labelCounter g4})"
      by (rule emitsL_seqI [OF a4 e5]) auto
    have a6: "emitsL g g6 ({lc} \<union> {lc + 2..<labelCounter g6})"
      using c4 c5 c6 by (intro emitsL_seqI [OF a5 e6]) auto
    have a7: "emitsL g g7 ({lc} \<union> {lc + 2..<labelCounter g6})"
      by (rule emitsL_seqI [OF a6 e7]) auto
    have a8: "emitsL g g8 {labelCounter g..<labelCounter g8}"
      using c4 c6 c8 by (intro emitsL_seqI [OF a7 e8]) (auto simp: lc_def)
    show "visits g (visitStatement (WhileStatement condition body) g)"
      unfolding r visits_emitsL by (rule a8)
  qed
next
  case (5 init condition increment body g)
  show ?case
  proof
    assume ok: "genOk g"
    define g0 where "g0 = (case init of None \<Rightarrow> g | Some s \<Rightarrow> visitStatement s g)"
    define lc where "lc = labelCounter g0"
    define g1 where "g1 = snd (createLabel g0)"
    define g2 where "g2 = snd (createLabel g1)"
    define g3 where "g3 = emitLabelled IROpCode.LABEL [] (fst (createLabel g0)) g2"
    define g4 where "g4 =
      (case condition of
         None \<Rightarrow> g3
       | Some e \<Rightarrow>
           emitLabelled JZ [fst (visitExpression e g3)] (fst (createLabel g1))
             (snd (visitExpression e g3)))"
    define g5 where "g5 = visitStatement body g4"
    define g6 where "g6 = (case increment of None \<Rightarrow> g5 | Some e \<Rightarrow> snd (visitExpression e g5))"
    define g7 where "g7 = emitLabelled JMP [] (fst (createLabel g0)) g6"
    define g8 where "g8 = emitLabelled IROpCode.LABEL [] (fst (createLabel g1)) g7"
    note defs = g0_def g1_def g2_def g3_def g4_def g5_def g6_def g7_def g8_def
    have r: "visitStatement (ForStatement init condition increment body) g = g8"
      by (simp add: case_prod_beta Let_def defs split: option.splits)
    have lloop: "fst (createLabel g0) = labelName lc"
      and lend: "fst (createLabel g1) = labelName (lc + 1)"
      by (simp_all add: fst_createLabel lc_def g1_def)
    have ih0: "init = Some s \<Longrightarrow> visits g (visitStatement s g)" for s
      using 5(1) [of s] ok by simp
    have e0: "emitsL g g0 {labelCounter g..<lc}"
      using ih0 emitsL_refl [OF ok] by (cases init) (simp_all add: g0_def lc_def visits_emitsL)
    have ok0: "genOk g0" by (rule emitsL_genOk [OF ok e0])
    have e1: "emitsL g0 g1 {}" and ok1: "genOk g1"
      using emitsL_createLabel [OF ok0] emitsL_genOk [OF ok0] by (auto simp: g1_def)
    have e2: "emitsL g1 g2 {}" and ok2: "genOk g2"
      using emitsL_createLabel [OF ok1] emitsL_genOk [OF ok1] by (auto simp: g2_def)
    have e3: "emitsL g2 g3 {lc}" and ok3: "genOk g3"
      using emitsL_LABEL [OF ok2, of lc] emitsL_genOk [OF ok2] by (auto simp: g3_def lloop)
    have e4: "emitsL g3 g4 {labelCounter g3..<labelCounter g4}"
    proof (cases condition)
      case None
      then show ?thesis using emitsL_refl [OF ok3] by (simp add: g4_def)
    next
      case (Some e)
      let ?h = "snd (visitExpression e g3)"
      have x: "emitsL g3 ?h {labelCounter g3..<labelCounter ?h}"
        by (rule emitsL_expression [OF ok3])
      have okh: "genOk ?h" by (rule emitsL_genOk [OF ok3 x])
      have y: "emitsL ?h (emitLabelled JZ [fst (visitExpression e g3)] (fst (createLabel g1)) ?h) {}"
        by (rule emitsL_jump [OF okh]) simp
      show ?thesis
        using Some by (simp add: g4_def) (rule emitsL_seqI [OF x y], auto)
    qed
    have ok4: "genOk g4" by (rule emitsL_genOk [OF ok3 e4])
    have ih: "genOk g4 \<longrightarrow> visits g4 (visitStatement body g4)"
      using 5(2) [OF refl prod.collapse prod.collapse refl refl]
      by (simp add: defs case_prod_beta cong: option.case_cong)
    have e5: "emitsL g4 g5 {labelCounter g4..<labelCounter g5}" and ok5: "genOk g5"
      using ih ok4 emitsL_genOk [OF ok4] by (auto simp: g5_def visits_emitsL)
    have e6: "emitsL g5 g6 {labelCounter g5..<labelCounter g6}"
      using emitsL_refl [OF ok5] emitsL_expression [OF ok5]
      by (cases increment) (simp_all add: g6_def)
    have ok6: "genOk g6" by (rule emitsL_genOk [OF ok5 e6])
    have e7: "emitsL g6 g7 {}" and ok7: "genOk g7"
      using emitsL_jump [OF ok6, of JMP] emitsL_genOk [OF ok6] by (auto simp: g7_def)
    have e8: "emitsL g7 g8 {lc + 1}"
      using emitsL_LABEL [OF ok7, of "lc + 1"] by (simp add: g8_def lend)
    have c0: "labelCounter g \<le> lc"
      using emitsL_counters [OF e0] by (simp add: lc_def)
    have c3: "labelCounter g3 = lc + 2"
      by (simp add: g3_def g2_def g1_def lc_def)
    have c8: "labelCounter g8 = labelCounter g6"
      by (simp add: g8_def g7_def)
    have c4: "lc + 2 \<le> labelCounter g4"
      using emitsL_counters [OF e4] c3 by simp
    have c5: "labelCounter g4 \<le> labelCounter g5"
      using emitsL_counters [OF e5] by simp
    have c6: "labelCounter g5 \<le> labelCounter g6"
      using emitsL_counters [OF e6] by simp
    have a1: "emitsL g g1 {labelCounter g..<lc}" by (rule emitsL_seqI [OF e0 e1]) auto
    have a2: "emitsL g g2 {labelCounter g..<lc}" by (rule emitsL_seqI [OF a1 e2]) auto
    have a3: "emitsL g g3 {labelCounter g..<lc + 1}"
      using c0 by (intro emitsL_seqI [OF a2 e3]) auto
    have a4: "emitsL g g4 ({labelCounter g..<lc + 1} \<union> {lc + 2..<labelCounter g4})"
      using c3 by (intro emitsL_seqI [OF a3 e4]) auto
    have a5: "emitsL g g5 ({labelCounter g..<lc + 1} \<union> {lc + 2..<labelCounter g5})"
      using c4 c5 by (intro emitsL_seqI [OF a4 e5]) auto
    have a6: "emitsL g g6 ({labelCounter g..<lc + 1} \<union> {lc + 2..<labelCounter g6})"
      using c4 c5 c6 by (intro emitsL_seqI [OF a5 e6]) auto
    have a7: "emitsL g g7 ({labelCounter g..<lc + 1} \<union> {lc + 2..<labelCounter g6})"
      by (rule emitsL_seqI [OF a6 e7]) auto
    have a8: "emitsL g g8 {labelCounter g..<labelCounter g8}"
      using c0 c4 c5 c6 c8 by (intro emitsL_seqI [OF a7 e8]) auto
    show "visits g (visitStatement (ForStatement init condition increment body) g)"
      unfolding r visits_emitsL by (rule a8)
  qed
next
  case (6 n ty initializer g)
  show ?case by (simp add: visits_visitVariableDecl)
next
  case (7 expression g)
  show ?case using visitExpression_visits(1) [of g expression] by simp
next
  case (8 expression g)
  show ?case
  proof
    assume ok: "genOk g"
    let ?g1 = "snd (visitExpression expression g)"
    have v1: "visits g ?g1" using visitExpression_visits(1) [of g expression] ok by simp
    have ok1: "genOk ?g1" by (rule visits_genOk [OF ok v1])
    have v2: "visits ?g1 (emitLabelled IROpCode.PRINT [fst (visitExpression expression g)] [] ?g1)"
      by (rule visits_emitLabelled [OF ok1]) simp
    show "visits g (visitStatement (PrintStatement expression) g)"
      using visits_seq [OF v1 v2] by (simp add: case_prod_beta)
  qed
next
  case (9 g)
  show ?case by (simp add: visits_refl)
next
  case (10 s ss g)
  show ?case
  proof
    assume ok: "genOk g"
    have v1: "visits g (visitStatement s g)" using 10(1) ok by simp
    have v2: "visits (visitStatement s g) (visitBlockStatement ss (visitStatement s g))"
      using 10(2) visits_genOk [OF ok v1] by simp
    show "visits g (visitBlockStatement (s # ss) g)"
      using visits_seq [OF v1 v2] by simp
  qed
qed

subsection \<open>Functions and programs\<close>

definition programLabels :: "IRProgram \<Rightarrow> string list" where
  "programLabels fs = concat (map (\<lambda>f. labelsDefined (irf_instructions f)) fs)"

text \<open>What the generator leaves behind for one function.\<close>

definition goodFunction :: "IRFunction \<Rightarrow> bool" where
  "goodFunction f \<longleftrightarrow>
     (\<exists>n. set (tempResults (irf_instructions f)) = {0..<n}) \<and>
     distinct (tempResults (irf_instructions f)) \<and>
     (\<forall>i \<in> set (irf_instructions f). wellFormed i)"

lemma addParameters_locals:
  "\<forall>v \<in> ran tab. iv_type v = LOCAL \<Longrightarrow> \<forall>v \<in> ran (addParameters params tab). iv_type v = LOCAL"
proof (induction params arbitrary: tab)
  case Nil
  then show ?case by simp
next
  case (Cons param params)
  have "\<forall>v \<in> ran (tab(snd param \<mapsto> \<lparr>iv_type = LOCAL, iv_name = snd param, iv_id = - 1\<rparr>)).
          iv_type v = LOCAL"
    using Cons.prems by (auto simp: ran_def)
  then show ?case
    using Cons.IH by simp
qed

lemma visitFunction_result:
  assumes "0 \<le> labelCounter g"
  shows "\<exists>f. gen_program (visitFunction func g) = gen_program g @ [f] \<and> goodFunction f \<and>
             irf_name f = fd_name func \<and>
             labelCounter g \<le> labelCounter (visitFunction func g) \<and>
             set (labelsDefined (irf_instructions f)) =
               labelName ` {labelCounter g..<labelCounter (visitFunction func g)} \<and>
             distinct (labelsDefined (irf_instructions f))"
proof -
  define f0 where "f0 = \<lparr>irf_name = fd_name func, irf_returnType = fd_returnType func,
                         irf_parameters = fd_parameters func, irf_instructions = []\<rparr>"
  define g0 where "g0 = g\<lparr>gen_program := gen_program g @ [f0], tempCounter := 0,
                         symbolTable := addParameters (fd_parameters func) Map.empty\<rparr>"
  define g1 where "g1 = visitFunction func g"
  have g1: "g1 = visitStatement (fd_body func) g0"
    by (simp add: g1_def g0_def f0_def visitFunction_def)
  have ok0: "genOk g0"
    using assms addParameters_locals [of Map.empty "fd_parameters func"]
    by (simp add: genOk_def g0_def localsOnly_def)
  have v: "visits g0 g1"
    using visitStatement_visits(1) [of g0 "fd_body func"] ok0 g1 by simp
  then have e: "emits g0 g1 {0..<tempCounter g1} {labelCounter g..<labelCounter g1}"
    by (simp add: visits_def g0_def)
  then obtain cur earlier new where
    x: "rev (gen_program g0) = cur # earlier"
      "rev (gen_program g1) = cur\<lparr>irf_instructions := irf_instructions cur @ new\<rparr> # earlier"
    by (auto simp: emits_def extends_def)
  have cur: "cur = f0" "earlier = rev (gen_program g)"
    using x(1) by (simp_all add: g0_def)
  have p1: "gen_program g1 = gen_program g @ [f0\<lparr>irf_instructions := new\<rparr>]"
    using x(2) cur by (simp add: f0_def rev_swap)
  have es: "emittedSince g0 g1 = new"
    using x cur by (simp add: emittedSince_def currentInstructions_def f0_def)
  show ?thesis
    unfolding g1_def [symmetric]
    using e es emits_counters [OF e] p1
    by (intro exI [of _ "f0\<lparr>irf_instructions := new\<rparr>"])
       (auto simp: emits_def goodFunction_def f0_def g0_def)
qed

lemma visitProgram_result:
  assumes "0 \<le> labelCounter g"
  shows "\<exists>fs. gen_program (visitProgram funcs g) = gen_program g @ fs \<and>
              (\<forall>f \<in> set fs. goodFunction f) \<and>
              labelCounter g \<le> labelCounter (visitProgram funcs g) \<and>
              set (programLabels fs) =
                labelName ` {labelCounter g..<labelCounter (visitProgram funcs g)} \<and>
              distinct (programLabels fs)"
  using assms
proof (induction funcs arbitrary: g)
  case Nil
  then show ?case
    by (intro exI [of _ "[]"]) (simp add: programLabels_def)
next
  case (Cons func funcs)
  let ?g1 = "visitFunction func g"
  let ?g2 = "visitProgram funcs ?g1"
  obtain f where f: "gen_program ?g1 = gen_program g @ [f]" "goodFunction f"
    "labelCounter g \<le> labelCounter ?g1"
    "set (labelsDefined (irf_instructions f)) = labelName ` {labelCounter g..<labelCounter ?g1}"
    "distinct (labelsDefined (irf_instructions f))"
    using visitFunction_result [OF Cons.prems, of func] by blast
  have "0 \<le> labelCounter ?g1"
    using Cons.prems f(3) by simp
  then obtain fs where fs: "gen_program ?g2 = gen_program ?g1 @ fs" "\<forall>f \<in> set fs. goodFunction f"
    "labelCounter ?g1 \<le> labelCounter ?g2"
    "set (programLabels fs) = labelName ` {labelCounter ?g1..<labelCounter ?g2}"
    "distinct (programLabels fs)"
    using Cons.IH [of ?g1] by blast
  have disj: "labelName ` {labelCounter g..<labelCounter ?g1}
                \<inter> labelName ` {labelCounter ?g1..<labelCounter ?g2} = {}"
    by (auto dest!: injD [OF labelName_inj])
  have un: "{labelCounter g..<labelCounter ?g1} \<union> {labelCounter ?g1..<labelCounter ?g2}
              = {labelCounter g..<labelCounter ?g2}"
    using f(3) fs(3) by auto
  show ?case
    using f fs disj un
    by (intro exI [of _ "f # fs"]) (auto simp: programLabels_def image_Un [symmetric])
qed

lemma generate_result:
  "(\<forall>f \<in> set (generate program). goodFunction f) \<and>
   (\<exists>n. set (programLabels (generate program)) = labelName ` {0..<n}) \<and>
   distinct (programLabels (generate program))"
proof -
  obtain fs where fs: "gen_program (visitProgram program IRGenerator_new) = gen_program IRGenerator_new @ fs"
    "\<forall>f \<in> set fs. goodFunction f"
    "set (programLabels fs) =
       labelName ` {labelCounter IRGenerator_new..<labelCounter (visitProgram program IRGenerator_new)}"
    "distinct (programLabels fs)"
    using visitProgram_result [of IRGenerator_new program] by (auto simp: IRGenerator_new_def)
  then have "generate program = fs"
    by (simp add: generate_def IRGenerator_new_def)
  then show ?thesis
    using fs by (auto simp: IRGenerator_new_def)
qed

section \<open>What the interpreter writes\<close>

text \<open>
  The opcodes whose branch of the dispatch loop may assign to
  \<^verbatim>\<open>temps[instr.result.toString()]\<close>.
\<close>

definition writes :: "IRInstruction \<Rightarrow> bool" where
  "writes i \<longleftrightarrow>
     ins_opcode i \<in>
       {LOAD_INT, LOAD_FLOAT, LOAD_STRING, ADD, SUB, MUL, DIV, MOD, CONCAT, LT, GT, LE, GE, EQ, NE,
        STORE, IROpCode.INPUT, IROpCode.KEY_PRESSED, IROpCode.SCREEN, IROpCode.DRAW_PIXEL,
        IROpCode.DRAW_RECT, IROpCode.DRAW_LINE, IROpCode.DRAW_CIRCLE, IROpCode.CLEAR_SCREEN,
        PRESENT, CALL}"

lemma store_frame:
  "store instr v st = Next st' \<Longrightarrow> toString (ins_result instr) \<noteq> k \<Longrightarrow> temps st' k = temps st k"
  by (auto simp: store_def)

lemma advance_ip_frame: "advance_ip st = Next st' \<Longrightarrow> temps st' k = temps st k"
  by (auto simp: advance_ip_def)

lemma arithmetic_frame:
  "arithmetic f instr st = Next st' \<Longrightarrow> toString (ins_result instr) \<noteq> k \<Longrightarrow>
     temps st' k = temps st k"
  by (auto simp: arithmetic_def dest: store_frame split: option.splits sum.splits)

lemma division_frame:
  "division f instr st = Next st' \<Longrightarrow> toString (ins_result instr) \<noteq> k \<Longrightarrow>
     temps st' k = temps st k"
  by (auto simp: division_def dest: store_frame split: option.splits sum.splits if_splits)

lemma compareOp_frame:
  "compareOp c instr st = Next st' \<Longrightarrow> toString (ins_result instr) \<noteq> k \<Longrightarrow>
     temps st' k = temps st k"
  by (auto simp: compareOp_def dest: store_frame split: option.splits sum.splits)

lemma drawOp_frame:
  "drawOp n instr st = Next st' \<Longrightarrow> toString (ins_result instr) \<noteq> k \<Longrightarrow>
     temps st' k = temps st k"
  by (auto simp: drawOp_def dest: store_frame advance_ip_frame split: if_splits)

lemma screenOp_frame:
  "screenOp pf instr st = Next st' \<Longrightarrow> toString (ins_result instr) \<noteq> k \<Longrightarrow>
     temps st' k = temps st k"
  by (auto simp: screenOp_def Let_def store_def split: if_splits option.splits)

lemma presentOp_frame:
  "presentOp len instr st = Next st' \<Longrightarrow> toString (ins_result instr) \<noteq> k \<Longrightarrow>
     temps st' k = temps st k"
  by (auto simp: presentOp_def store_def split: if_splits list.splits bool.splits)

lemma isKeyDownOp_frame:
  "isKeyDownOp pf instr st = Next st' \<Longrightarrow> toString (ins_result instr) \<noteq> k \<Longrightarrow>
     temps st' k = temps st k"
  by (auto simp: isKeyDownOp_def Let_def store_def split: if_splits)

text \<open>One turn of the loop changes no slot but the result slot of a writing instruction.\<close>

lemma step_frame:
  assumes "step pf labels len instr st = Next st'"
    and "writes instr \<longrightarrow> toString (ins_result instr) \<noteq> k"
  shows "temps st' k = temps st k"
proof (cases "writes instr")
  case True
  then have k: "toString (ins_result instr) \<noteq> k"
    using assms(2) by simp
  show ?thesis
    using assms(1) k
    by (cases "ins_opcode instr")
       (auto simp: step_def store_def
             dest: arithmetic_frame division_frame compareOp_frame drawOp_frame
               screenOp_frame presentOp_frame isKeyDownOp_frame advance_ip_frame
             split: list.splits sum.splits option.splits Value.splits if_splits)
next
  case False
  with assms(1) show ?thesis
    by (cases "ins_opcode instr")
       (auto simp: step_def writes_def advance_ip_def
             split: option.splits Value.splits if_splits)
qed

text \<open>
  The states of the dispatch loop on \<open>code\<close>: it starts with an empty \<^verbatim>\<open>temps\<close> map (every
  slot reads as the default-constructed variant, \<^verbatim>\<open>int\<close> 0) at instruction 0 and takes one
  turn after the other while \<^verbatim>\<open>ip < func.instructions.size()\<close>.
\<close>

inductive reachable :: "Platform \<Rightarrow> IRInstruction list \<Rightarrow> Interp \<Rightarrow> bool"
  for pf :: Platform and code :: "IRInstruction list" where
  start: "temps st = (\<lambda>k. VInt 0) \<Longrightarrow> ip st = 0 \<Longrightarrow> reachable pf code st"
| turn: "reachable pf code st \<Longrightarrow> ip st < length code \<Longrightarrow>
         step pf (findLabels code 0 (\<lambda>l. 0)) (length code) (code ! ip st) st = Next st' \<Longrightarrow>
         reachable pf code st'"

text \<open>The state after exactly \<open>n\<close> turns, if the loop takes that many.\<close>

fun stateAfter :: "nat \<Rightarrow> Platform \<Rightarrow> IRInstruction list \<Rightarrow> Interp \<Rightarrow> Interp option" where
  "stateAfter 0 pf code st = Some st"
| "stateAfter (Suc n) pf code st =
     (if ip st < length code then
        (case step pf (findLabels code 0 (\<lambda>l. 0)) (length code) (code ! ip st) st of
           Next st' \<Rightarrow> stateAfter n pf code st'
         | _ \<Rightarrow> None)
      else None)"

lemma stateAfter_reachable:
  "reachable pf code st \<Longrightarrow> stateAfter n pf code st = Some st' \<Longrightarrow> reachable pf code st'"
proof (induction n arbitrary: st)
  case 0
  then show ?case by simp
next
  case (Suc n)
  from Suc.prems(2) obtain st1 where
    s: "ip st < length code"
       "step pf (findLabels code 0 (\<lambda>l. 0)) (length code) (code ! ip st) st = Next st1"
       "stateAfter n pf code st1 = Some st'"
    by (auto split: if_splits step_result.splits)
  have "reachable pf code st1"
    by (rule reachable.turn [OF Suc.prems(1) s(1) s(2)])
  then show ?case
    using Suc.IH s(3) by blast
qed

text \<open>The state in which \<^verbatim>\<open>interpretIR\<close>'s loop stops is one of them.\<close>

fun lastState :: "outcome \<Rightarrow> Interp" where
  "lastState (Finished st) = st"
| "lastState (Thrown e st) = st"
| "lastState (Exited c st) = st"
| "lastState (UndefinedBehaviour st) = st"

lemma run_reachable:
  "reachable pf code st \<Longrightarrow> run n pf (findLabels code 0 (\<lambda>l. 0)) code st = Some out \<Longrightarrow>
     reachable pf code (lastState out)"
proof (induction n arbitrary: st)
  case 0
  then show ?case by (auto split: if_splits)
next
  case (Suc n)
  show ?case
  proof (cases "ip st < length code")
    case False
    with Suc.prems show ?thesis by auto
  next
    case True
    show ?thesis
    proof (cases "step pf (findLabels code 0 (\<lambda>l. 0)) (length code) (code ! ip st) st")
      case (Next st1)
      have "reachable pf code st1"
        by (rule reachable.turn [OF Suc.prems(1) True Next])
      then show ?thesis
        using Suc.IH [of st1] Suc.prems(2) True Next by simp
    qed (use Suc.prems True in auto)
  qed
qed

text \<open>A slot that no writing instruction of the code has as result slot stays at 0.\<close>

lemma reachable_unwritten:
  assumes "reachable pf code st"
    and "\<forall>i \<in> set code. writes i \<longrightarrow> toString (ins_result i) \<noteq> k"
  shows "temps st k = VInt 0"
  using assms
proof (induction rule: reachable.induct)
  case (start st)
  then show ?case by simp
next
  case (turn st st')
  have "code ! ip st \<in> set code"
    using turn.hyps(2) by simp
  then have "writes (code ! ip st) \<longrightarrow> toString (ins_result (code ! ip st)) \<noteq> k"
    using turn.prems by blast
  then have "temps st' k = temps st k"
    by (rule step_frame [OF turn.hyps(3)])
  then show ?case
    using turn.IH turn.prems by simp
qed

text \<open>
  In generated code the result slot of an instruction that does not write is written by no
  other instruction: temporaries are the result of one instruction each, and the slot of a
  local is named \<^verbatim>\<open>l_...\<close>.
\<close>

lemma toString_temp: "iv_type v = TEMP \<Longrightarrow> toString v = ''t'' @ to_string (iv_id v)"
  by (simp add: toString_def)

lemma toString_local: "iv_type v = LOCAL \<Longrightarrow> toString v = ''l_'' @ iv_name v"
  by (simp add: toString_def)

lemma tempResults_unique:
  assumes "distinct (tempResults code)" and "i \<in> set code" and "a \<in> set code"
    and "isTempResult i" and "isTempResult a"
    and "iv_id (ins_result i) = iv_id (ins_result a)"
  shows "i = a"
proof -
  have "inj_on (\<lambda>i. iv_id (ins_result i)) (set (filter isTempResult code))"
    using assms(1) by (simp add: tempResults_def distinct_map)
  then show ?thesis
    using assms(2-6) by (auto simp: inj_on_def)
qed

lemma goodFunction_unwritten:
  assumes "goodFunction f" and "a \<in> set (irf_instructions f)" and "\<not> writes a"
    and "isTempResult a"
  shows "\<forall>i \<in> set (irf_instructions f). writes i \<longrightarrow> toString (ins_result i) \<noteq> toString (ins_result a)"
proof (intro ballI impI notI)
  fix i
  assume i: "i \<in> set (irf_instructions f)" "writes i"
    and eq: "toString (ins_result i) = toString (ins_result a)"
  have d: "distinct (tempResults (irf_instructions f))" and w: "wellFormed i"
    using assms(1) i(1) by (auto simp: goodFunction_def)
  have ta: "toString (ins_result a) = ''t'' @ to_string (iv_id (ins_result a))"
    using assms(4) by (simp add: isTempResult_def toString_temp)
  from w i(2) consider "isTempResult i" | "iv_type (ins_result i) = LOCAL"
    by (auto simp: wellFormed_def writes_def)
  then show False
  proof cases
    case 1
    then have "toString (ins_result i) = ''t'' @ to_string (iv_id (ins_result i))"
      by (simp add: isTempResult_def toString_temp)
    then have "iv_id (ins_result i) = iv_id (ins_result a)"
      using eq ta by (auto dest: to_string_inj)
    then have "i = a"
      by (rule tempResults_unique [OF d i(1) assms(2) 1 assms(4)])
    then show False
      using i(2) assms(3) by simp
  next
    case 2
    then show False
      using eq ta by (simp add: toString_local)
  qed
qed

(*CLAIMS*)

section \<open>The claims\<close>

subsection \<open>Programs used as concrete inputs\<close>

text \<open>\<^verbatim>\<open>int main() { return y; }\<close>\<close>

definition prog_undefined_y :: Program where
  "prog_undefined_y =
     [\<lparr>fd_returnType = ''int'', fd_name = ''main'', fd_parameters = [],
       fd_body = BlockStatement [ReturnStatement (Some (Identifier ''y''))]\<rparr>]"

text \<open>\<^verbatim>\<open>int main() { { int x = 5; } return x; }\<close>\<close>

definition prog_block_scope :: Program where
  "prog_block_scope =
     [\<lparr>fd_returnType = ''int'', fd_name = ''main'', fd_parameters = [],
       fd_body = BlockStatement
         [BlockStatement [VariableDecl ''x'' ''int'' (Some (Literal INTEGER ''5''))],
          ReturnStatement (Some (Identifier ''x''))]\<rparr>]"

text \<open>\<^verbatim>\<open>int main() { bool flag = true; return 0; }\<close>\<close>

definition prog_bool_flag :: Program where
  "prog_bool_flag =
     [\<lparr>fd_returnType = ''int'', fd_name = ''main'', fd_parameters = [],
       fd_body = BlockStatement
         [VariableDecl ''flag'' ''bool'' (Some (Literal TRUE_LIT ''1'')),
          ReturnStatement (Some (Literal INTEGER ''0''))]\<rparr>]"

text \<open>The three programs above are what the front end makes of their source texts.\<close>

lemma prog_undefined_y_parsed:
  "parse 100 (tokenize ''int main() { return y; }'') = Some (Inr prog_undefined_y)"
  unfolding prog_undefined_y_def by code_simp

lemma prog_block_scope_parsed:
  "parse 100 (tokenize ''int main() { { int x = 5; } return x; }'') = Some (Inr prog_block_scope)"
  unfolding prog_block_scope_def by code_simp

lemma prog_bool_flag_parsed:
  "parse 100 (tokenize ''int main() { bool flag = true; return 0; }'') = Some (Inr prog_bool_flag)"
  unfolding prog_bool_flag_def by code_simp

definition src_while :: string where
  "src_while = ''int main() { int i = 0; while (i < 3) { print(i); i = i + 1; } return 0; }''"


definition src_after_return :: string where
  "src_after_return = ''int main() { return 0; print(1); }''"

definition src_and_loop :: string where
  "src_and_loop =
     ''int main() { int a = 1; int b = 1; while (a && b) { print(1); } print(0); return 0; }''"

definition prog_and_loop :: Program where
  "prog_and_loop =
     [\<lparr>fd_returnType = ''int'', fd_name = ''main'', fd_parameters = [],
       fd_body = BlockStatement
         [VariableDecl ''a'' ''int'' (Some (Literal INTEGER ''1'')),
          VariableDecl ''b'' ''int'' (Some (Literal INTEGER ''1'')),
          WhileStatement
            (BinaryOp (Identifier ''a'') TokenType.AND (Identifier ''b''))
            (BlockStatement [PrintStatement (Literal INTEGER ''1'')]),
          PrintStatement (Literal INTEGER ''0''),
          ReturnStatement (Some (Literal INTEGER ''0''))]\<rparr>]"

lemma prog_and_loop_parsed:
  "parse 100 (tokenize src_and_loop) = Some (Inr prog_and_loop)"
  unfolding prog_and_loop_def src_and_loop_def by code_simp

abbreviation and_code :: "IRInstruction list" where
  "and_code \<equiv> irf_instructions (hd (generate prog_and_loop))"

text \<open>A platform and an instruction for the concrete instances below.\<close>

definition somePlatform :: Platform where
  "somePlatform =
     \<lparr>p_stod = (\<lambda>s. Inl (invalid_argument ''stod'')), p_cout_double = (\<lambda>d. []),
      p_to_string_double = (\<lambda>d. []), p_window_error = None, p_isKeyPressed = (\<lambda>k. False)\<rparr>"





lemmas analyzer_defs =
  hasErrors_def analyze_def analyzeProgram_def analyzeFunction_def enterScope_def exitScope_def
  declareCurrent_def Scope_declare_def analyzeVariableDecl_def analyzeReturnStatement_def
  isCompatibleType_def reportError_def

text \<open>\<^verbatim>\<open>int f() { while (0) { } return 0; } int main() { while (0) { } return 0; }\<close>\<close>

definition prog_two_loops :: Program where
  "prog_two_loops =
     [\<lparr>fd_returnType = ''int'', fd_name = ''f'', fd_parameters = [],
       fd_body = BlockStatement
         [WhileStatement (Literal INTEGER ''0'') (BlockStatement []),
          ReturnStatement (Some (Literal INTEGER ''0''))]\<rparr>,
      \<lparr>fd_returnType = ''int'', fd_name = ''main'', fd_parameters = [],
       fd_body = BlockStatement
         [WhileStatement (Literal INTEGER ''0'') (BlockStatement []),
          ReturnStatement (Some (Literal INTEGER ''0''))]\<rparr>]"

lemma prog_two_loops_parsed:
  "parse 100 (tokenize
      ''int f() { while (0) { } return 0; } int main() { while (0) { } return 0; }'') =
     Some (Inr prog_two_loops)"
  unfolding prog_two_loops_def by code_simp

subsection \<open>Interpreter\<close>

text \<open>
  C1.  The whole pipeline on
  \<^verbatim>\<open>int main() { int i = 0; while (i < 3) { print(i); i = i + 1; } return 0; }\<close>, whatever
  the platform and the input: the process writes exactly \<^verbatim>\<open>012\<close> to standard output, reports no
  error and exits with code 0.  (100 units of fuel are enough for the parser and for the
  interpreter.)
\<close>

theorem while_loop_prints_012:
  "zpp_main 100 pf (Interp_new lines keys closes) src_while =
     Some \<lparr>pr_stdout = ''012'', pr_error = None, pr_exit = 0\<rparr>"
  unfolding src_while_def by code_simp





text \<open>
  C4.  The claim: \<^verbatim>\<open>RET\<close> in \<^verbatim>\<open>main\<close> stops execution.  The dispatch loop has no branch for
  \<^verbatim>\<open>RET\<close>, so the instruction pointer moves on to what follows:
  \<^verbatim>\<open>int main() { return 0; print(1); }\<close> prints \<^verbatim>\<open>1\<close>.
\<close>

theorem ret_does_not_stop:
  "zpp_main 100 pf (Interp_new lines keys closes) src_after_return =
     Some \<lparr>pr_stdout = ''1'', pr_error = None, pr_exit = 0\<rparr>"
  unfolding src_after_return_def by code_simp




subsection \<open>IR generator\<close>




subsection \<open>Generator and interpreter together\<close>

text \<open>
  C9.  \<^verbatim>\<open>&&\<close> is lowered to one \<^verbatim>\<open>AND\<close> instruction whose result is a fresh temporary.  The
  dispatch loop has no branch for \<^verbatim>\<open>AND\<close>, \<^verbatim>\<open>OR\<close>, \<^verbatim>\<open>NOT\<close> or \<^verbatim>\<open>NEG\<close>: such an instruction only
  moves the instruction pointer on.  So in the code of any function of any generated
  program, in any state that the loop reaches from the empty \<^verbatim>\<open>temps\<close> map, the result slot of
  an \<^verbatim>\<open>AND\<close> instruction reads as integer 0, whatever its operands hold, and a \<^verbatim>\<open>JZ\<close> on that
  slot jumps to its label: the false branch is taken.
\<close>

theorem and_condition_always_false:
  assumes "func \<in> set (generate program)"
    and "reachable pf (irf_instructions func) st"
    and "ip st < length (irf_instructions func)"
    and "irf_instructions func ! ip st = jz"
    and "ins_opcode jz = JZ"
    and "ins_operands jz = ins_result a # rest"
    and "a \<in> set (irf_instructions func)"
    and "ins_opcode a = IROpCode.AND"
  shows "visitExpression (BinaryOp left TokenType.AND right) g =
           (fst (createTemp (snd (visitExpression right (snd (visitExpression left g))))),
            emitOp IROpCode.AND
              [fst (visitExpression left g), fst (visitExpression right (snd (visitExpression left g)))]
              (fst (createTemp (snd (visitExpression right (snd (visitExpression left g))))))
              (snd (createTemp (snd (visitExpression right (snd (visitExpression left g))))))) \<and>
         (ins_opcode i \<in> {IROpCode.AND, IROpCode.OR, IROpCode.NOT, NEG} \<longrightarrow>
            step pf labels len i s = advance_ip s) \<and>
         temps st (toString (ins_result a)) = VInt 0 \<and>
         step pf (findLabels (irf_instructions func) 0 (\<lambda>l. 0)) (length (irf_instructions func)) jz st =
           Next (st\<lparr>ip := findLabels (irf_instructions func) 0 (\<lambda>l. 0) (ins_label jz)\<rparr>)"
proof -
  have good: "goodFunction func"
    using generate_result [of program] assms(1) by blast
  then have "wellFormed a"
    using assms(7) by (simp add: goodFunction_def)
  then have temp: "isTempResult a"
    using assms(8) by (auto simp: wellFormed_def)
  have silent: "\<not> writes a"
    using assms(8) by (simp add: writes_def)
  have "\<forall>i \<in> set (irf_instructions func).
          writes i \<longrightarrow> toString (ins_result i) \<noteq> toString (ins_result a)"
    by (rule goodFunction_unwritten [OF good assms(7) silent temp])
  with assms(2) have zero: "temps st (toString (ins_result a)) = VInt 0"
    by (rule reachable_unwritten)
  have lowered: "visitExpression (BinaryOp left TokenType.AND right) g =
           (fst (createTemp (snd (visitExpression right (snd (visitExpression left g))))),
            emitOp IROpCode.AND
              [fst (visitExpression left g), fst (visitExpression right (snd (visitExpression left g)))]
              (fst (createTemp (snd (visitExpression right (snd (visitExpression left g))))))
              (snd (createTemp (snd (visitExpression right (snd (visitExpression left g)))))))"
    by (simp add: case_prod_beta)
  have noop: "ins_opcode i \<in> {IROpCode.AND, IROpCode.OR, IROpCode.NOT, NEG} \<longrightarrow>
            step pf labels len i s = advance_ip s"
    by (auto simp: step_def)
  have jump: "step pf (findLabels (irf_instructions func) 0 (\<lambda>l. 0)) (length (irf_instructions func)) jz st =
           Next (st\<lparr>ip := findLabels (irf_instructions func) 0 (\<lambda>l. 0) (ins_label jz)\<rparr>)"
    using zero assms(5,6) by (simp add: step_def operand_def)
  from lowered noop zero jump show ?thesis
    by blast
qed

theorem and_condition_always_false_witness:
  "(\<exists>st. stateAfter 6 somePlatform and_code (Interp_new [] [] []) = Some st \<and>
         ip st = 6 \<and> temps st ''l_a'' = VInt 1 \<and> temps st ''l_b'' = VInt 1 \<and>
         ins_opcode (and_code ! 5) = IROpCode.AND \<and>
         map toString (ins_operands (and_code ! 5)) = [''l_a'', ''l_b''] \<and>
         toString (ins_result (and_code ! 5)) = ''t2'' \<and>
         temps st ''t2'' = VInt 0 \<and>
         step somePlatform (findLabels and_code 0 (\<lambda>l. 0)) (length and_code) (and_code ! 6) st =
           Next (st\<lparr>ip := 10\<rparr>)) \<and>
   zpp_main 100 somePlatform (Interp_new [] [] []) src_and_loop =
     Some \<lparr>pr_stdout = ''0'', pr_error = None, pr_exit = 0\<rparr>"
proof -
  have "case stateAfter 6 somePlatform and_code (Interp_new [] [] []) of
          None \<Rightarrow> False
        | Some st \<Rightarrow> ip st = 6 \<and> temps st ''l_a'' = VInt 1 \<and> temps st ''l_b'' = VInt 1"
    unfolding prog_and_loop_def by code_simp
  then obtain st where st: "stateAfter 6 somePlatform and_code (Interp_new [] [] []) = Some st"
    "ip st = 6" "temps st ''l_a'' = VInt 1" "temps st ''l_b'' = VInt 1"
    by (auto split: option.splits)
  have "reachable somePlatform and_code (Interp_new [] [] [])"
    by (rule reachable.start) (simp_all add: Interp_new_def)
  then have r: "reachable somePlatform and_code st"
    using st(1) by (rule stateAfter_reachable)
  have "generate prog_and_loop \<noteq> []"
    unfolding prog_and_loop_def by code_simp
  then have mem: "hd (generate prog_and_loop) \<in> set (generate prog_and_loop)"
    by simp
  have len: "length and_code = 15"
    unfolding prog_and_loop_def by code_simp
  have jz: "ins_opcode (and_code ! 6) = JZ"
    "ins_operands (and_code ! 6) = ins_result (and_code ! 5) # []"
    "ins_label (and_code ! 6) = ''L1''"
    unfolding prog_and_loop_def by code_simp+
  have a: "ins_opcode (and_code ! 5) = IROpCode.AND"
    "map toString (ins_operands (and_code ! 5)) = [''l_a'', ''l_b'']"
    "toString (ins_result (and_code ! 5)) = ''t2''"
    unfolding prog_and_loop_def by code_simp+
  have l: "findLabels and_code 0 (\<lambda>l. 0) ''L1'' = 10"
    unfolding prog_and_loop_def by code_simp
  have ip: "ip st < length and_code"
    using st(2) len by simp
  have at: "and_code ! ip st = and_code ! 6"
    using st(2) by simp
  have ina: "and_code ! 5 \<in> set and_code"
    using len by simp
  have main: "zpp_main 100 somePlatform (Interp_new [] [] []) src_and_loop =
     Some \<lparr>pr_stdout = ''0'', pr_error = None, pr_exit = 0\<rparr>"
    unfolding src_and_loop_def by code_simp
  from and_condition_always_false [OF mem r ip at jz(1) jz(2) ina a(1)] st a jz(3) l main
  show ?thesis
    by simp
qed

subsection \<open>Semantic analyzer\<close>

text \<open>
  C3.  The claim: a variable declared inside a nested block and referenced after that block
  makes the analyzer report an undefined name and set the error flag.  The analyzer enters
  no scope for a block, so the declaration lands in the scope of the function body and the
  later reference finds it: on \<^verbatim>\<open>int main() { { int x = 5; } return x; }\<close>, started with a
  clear flag, nothing is reported and the flag stays clear.
\<close>

theorem block_scope_leak_no_error:
  "\<not> hasErrors (analyze prog_block_scope False) \<and> cerr (analyze prog_block_scope False) = []"
  by (simp add: analyzer_defs prog_block_scope_def)

text \<open>
  C7.  The claim: a boolean literal gets type \<^verbatim>\<open>"bool"\<close>, so \<^verbatim>\<open>bool flag = true;\<close> passes the
  compatibility check.  \<^verbatim>\<open>analyzeLiteral\<close> has cases for integer, float and string literals
  only; the literal \<open>Literal TRUE_LIT ''1''\<close> falls to the default and gets \<^verbatim>\<open>"void"\<close>, which is
  not compatible with \<^verbatim>\<open>"bool"\<close>, and the declaration is reported.
\<close>

theorem bool_literal_typed_void:
  "analyzeExpression (Literal TRUE_LIT ''1'') st = (''void'', st) \<and>
   analyzeExpression (Literal FALSE_LIT ''0'') st = (''void'', st) \<and>
   \<not> isCompatibleType ''void'' ''bool'' \<and>
   hasErrors (analyze prog_bool_flag False) \<and>
   cerr (analyze prog_bool_flag False) =
     [''Semantic Error: Variable initialization type mismatch: expected bool, got void'']"
  by (simp add: analyzer_defs prog_bool_flag_def)



end
